theory Spec2Isabelle
  imports Main
begin

section \<open>Values of the configuration file\<close>

text \<open>
  The declarative source (\<^verbatim>\<open>config.json\<close>) is read with \<^verbatim>\<open>JSON.parse\<close>, so every value the
  reconciler touches is a JSON value. An object is kept as the list of its properties in
  the order of the file, every key once (of a key that the file repeats, \<^verbatim>\<open>JSON.parse\<close> keeps
  the last value); a property read that finds nothing is \<^verbatim>\<open>undefined\<close>, modelled by \<open>None\<close>.
  Numbers are taken to be integers: the code only tests them for truthiness and for
  being \<^verbatim>\<open>0\<close>.
\<close>

datatype json =
    JNull
  | JBool bool
  | JNum int
  | JStr string
  | JArr "json list"
  | JObj "(string \<times> json) list"

text \<open>JavaScript truthiness (\<^verbatim>\<open>!!v\<close>) of a JSON value.\<close>

fun truthy :: "json \<Rightarrow> bool" where
  "truthy JNull = False"
| "truthy (JBool b) = b"
| "truthy (JNum n) = (n \<noteq> 0)"
| "truthy (JStr s) = (s \<noteq> [])"
| "truthy (JArr xs) = True"
| "truthy (JObj kvs) = True"

text \<open>Truthiness of the result of a property read, \<^verbatim>\<open>undefined\<close> being falsy.\<close>

fun truthy_opt :: "json option \<Rightarrow> bool" where
  "truthy_opt None = False"
| "truthy_opt (Some v) = truthy v"

text \<open>
  \<^verbatim>\<open>v.k\<close> for a value \<open>v\<close> that is not \<^verbatim>\<open>null\<close> and a key \<open>k\<close> among the ones the code
  reads (\<^verbatim>\<open>id\<close>, \<^verbatim>\<open>type\<close>, \<^verbatim>\<open>jobs\<close>, ...): only an object has such a property. Reading a
  property of \<^verbatim>\<open>null\<close> throws; the callers below test for \<open>JNull\<close> before they use \<open>get_prop\<close>.
\<close>

fun get_prop :: "json \<Rightarrow> string \<Rightarrow> json option" where
  "get_prop (JObj kvs) k = map_of kvs k"
| "get_prop _ k = None"

text \<open>\<^verbatim>\<open>a || b\<close> where \<open>a\<close> is a property read and \<open>b\<close> a value.\<close>

fun or_else :: "json option \<Rightarrow> json \<Rightarrow> json" where
  "or_else None d = d"
| "or_else (Some v) d = (if truthy v then v else d)"

section \<open>Strings\<close>

text \<open>\<^verbatim>\<open>s.startsWith(pat)\<close> and \<^verbatim>\<open>s.includes(pat)\<close> for a literal pattern.\<close>

definition startsWith :: "string \<Rightarrow> string \<Rightarrow> bool" where
  "startsWith s pat = (take (length pat) s = pat)"

fun str_includes :: "string \<Rightarrow> string \<Rightarrow> bool" where
  "str_includes [] pat = (pat = [])"
| "str_includes (c # cs) pat = (startsWith (c # cs) pat \<or> str_includes cs pat)"

text \<open>
  The text that \<^verbatim>\<open>replaceAll\<close> puts in the place of one match, from the replacement string
  \<open>rep\<close>: \<^verbatim>\<open>$$\<close> stands for a dollar sign, \<^verbatim>\<open>$&\<close> for the matched text, a dollar sign with a
  backquote for the part of the string before the match, a dollar sign with an apostrophe
  for the part after it; every other character stands for itself (a literal pattern has
  no groups, so \<^verbatim>\<open>$1\<close> and the like are kept as they are).
\<close>

fun get_substitution :: "string \<Rightarrow> string \<Rightarrow> string \<Rightarrow> string \<Rightarrow> string" where
  "get_substitution matched passed following [] = []"
| "get_substitution matched passed following [c] = [c]"
| "get_substitution matched passed following (c # d # rest) =
     (if c = CHR 0x24 \<and> d = CHR 0x24 then CHR 0x24 # get_substitution matched passed following rest
      else if c = CHR 0x24 \<and> d = CHR 0x26 then matched @ get_substitution matched passed following rest
      else if c = CHR 0x24 \<and> d = CHR 0x60 then passed @ get_substitution matched passed following rest
      else if c = CHR 0x24 \<and> d = CHR 0x27 then following @ get_substitution matched passed following rest
      else c # get_substitution matched passed following (d # rest))"

text \<open>
  \<^verbatim>\<open>s.replaceAll(pat, rep)\<close> for a literal, non-empty pattern (the two patterns of the code
  are such): the matches are found from left to right without overlap, and each is
  replaced by its substitution. \<open>passed\<close> is the part of the string already passed.
\<close>

function replaceAll_at :: "string \<Rightarrow> string \<Rightarrow> string \<Rightarrow> string \<Rightarrow> string" where
  "replaceAll_at pat rep passed [] = []"
| "replaceAll_at pat rep passed (c # cs) =
     (if pat \<noteq> [] \<and> startsWith (c # cs) pat
      then get_substitution pat passed (drop (length pat) (c # cs)) rep
           @ replaceAll_at pat rep (passed @ pat) (drop (length pat) (c # cs))
      else c # replaceAll_at pat rep (passed @ [c]) cs)"
  by pat_completeness auto
termination
  by (relation "measure (\<lambda>(pat, rep, passed, s). length s)") (auto simp: neq_Nil_conv)

definition replaceAll :: "string \<Rightarrow> string \<Rightarrow> string \<Rightarrow> string" where
  "replaceAll pat rep s = replaceAll_at pat rep [] s"

section \<open>Normalising notification adapters\<close>

text \<open>
  \<^verbatim>\<open>convertNotificationAdapter(adapter)\<close> of \<^verbatim>\<open>configJobSync.js\<close>. The result \<open>None\<close> is the
  JavaScript \<^verbatim>\<open>null\<close> the function returns for an adapter it rejects.
\<close>

definition convertNotificationAdapter :: "json \<Rightarrow> json option" where
  "convertNotificationAdapter adapter =
     (if \<not> truthy adapter then None
      else if truthy_opt (get_prop adapter ''type'') \<and> truthy_opt (get_prop adapter ''botToken'')
              \<and> truthy_opt (get_prop adapter ''chatId'')
      then (case (get_prop adapter ''type'', get_prop adapter ''botToken'', get_prop adapter ''chatId'') of
              (Some ty, Some tok, Some chat) \<Rightarrow>
                Some (JObj [(''id'', ty), (''fields'', JObj [(''token'', tok), (''chatId'', chat)])])
            | _ \<Rightarrow> None)
      else if \<not> truthy_opt (get_prop adapter ''id'') then None
      else if truthy_opt (get_prop adapter ''fields'') then Some adapter
      else if truthy_opt (get_prop adapter ''args'')
      then (case (get_prop adapter ''id'', get_prop adapter ''args'') of
              (Some i, Some a) \<Rightarrow> Some (JObj [(''id'', i), (''fields'', a)])
            | _ \<Rightarrow> None)
      else (case get_prop adapter ''id'' of
              Some i \<Rightarrow> Some (JObj [(''id'', i), (''fields'', JObj [])])
            | None \<Rightarrow> None))"

text \<open>\<^verbatim>\<open>xs.filter(Boolean)\<close> on the results of the conversion: \<^verbatim>\<open>null\<close> and every other
  falsy value is dropped.\<close>

fun filter_Boolean :: "json option list \<Rightarrow> json list" where
  "filter_Boolean [] = []"
| "filter_Boolean (None # rest) = filter_Boolean rest"
| "filter_Boolean (Some v # rest) = (if truthy v then v # filter_Boolean rest else filter_Boolean rest)"

section \<open>Environment placeholders\<close>

text \<open>The two variables of \<^verbatim>\<open>process.env\<close> that the reconciler reads; \<open>None\<close> is an unset variable.\<close>

record env =
  BOT_TOKEN :: "string option"
  RAW_FEED_CHANNEL_ID :: "string option"

text \<open>\<^verbatim>\<open>process.env.X && ...\<close>: an unset or empty variable is falsy.\<close>

fun env_set :: "string option \<Rightarrow> bool" where
  "env_set None = False"
| "env_set (Some s) = (s \<noteq> [])"

fun env_val :: "string option \<Rightarrow> string" where
  "env_val None = []"
| "env_val (Some s) = s"

text \<open>
  The two \<^verbatim>\<open>if\<close> statements that \<^verbatim>\<open>replaceEnvPlaceholdersSimple\<close> runs on a string \<open>v\<close> stored at
  \<^verbatim>\<open>obj[key]\<close>. Both test and rewrite the value read before the first assignment, so the
  second assignment, when it happens, overwrites the first.
\<close>

definition replace_in_string :: "env \<Rightarrow> string \<Rightarrow> string" where
  "replace_in_string e v =
     (let o1 = (if env_set (BOT_TOKEN e) \<and> str_includes v ''${BOT_TOKEN}''
                then replaceAll ''${BOT_TOKEN}'' (env_val (BOT_TOKEN e)) v else v);
          o2 = (if env_set (RAW_FEED_CHANNEL_ID e) \<and> str_includes v ''${RAW_FEED_CHANNEL_ID}''
                then replaceAll ''${RAW_FEED_CHANNEL_ID}'' (env_val (RAW_FEED_CHANNEL_ID e)) v
                else o1)
      in o2)"

text \<open>
  \<^verbatim>\<open>replaceEnvPlaceholdersSimple(obj)\<close> mutates \<open>obj\<close> in place; the model returns the new value
  (a parsed file is a tree, nothing is shared). \<open>replaceEnvPlaceholdersSimple\<close> is the
  \<^verbatim>\<open>for (const key in obj)\<close> loop, which visits the properties of an object and the indices of
  an array; \<open>replace_value\<close> is its body on one value; \<open>replace_item\<close> is the callback of
  \<^verbatim>\<open>value.forEach\<close>, which recurses into an item of type \<^verbatim>\<open>object\<close> (an object or an array) and
  leaves every other item as it is.
\<close>

fun replaceEnvPlaceholdersSimple :: "env \<Rightarrow> json \<Rightarrow> json"
and replace_value :: "env \<Rightarrow> json \<Rightarrow> json"
and replace_item :: "env \<Rightarrow> json \<Rightarrow> json" where
  "replaceEnvPlaceholdersSimple e (JObj kvs) = JObj (map (\<lambda>(k, v). (k, replace_value e v)) kvs)"
| "replaceEnvPlaceholdersSimple e (JArr xs) = JArr (map (replace_value e) xs)"
| "replaceEnvPlaceholdersSimple e v = v"
| "replace_value e (JStr s) = JStr (replace_in_string e s)"
| "replace_value e (JObj kvs) = replaceEnvPlaceholdersSimple e (JObj kvs)"
| "replace_value e (JArr xs) = JArr (map (replace_item e) xs)"
| "replace_value e v = v"
| "replace_item e (JObj kvs) = replaceEnvPlaceholdersSimple e (JObj kvs)"
| "replace_item e (JArr xs) = replaceEnvPlaceholdersSimple e (JArr xs)"
| "replace_item e v = v"

section \<open>The job store and the user store\<close>

datatype js_error = TypeError | StorageError | ReadError

text \<open>
  A job as \<^verbatim>\<open>jobStorage.js\<close> exchanges it with its callers (\<^verbatim>\<open>configJobSync.js\<close>,
  \<^verbatim>\<open>fredyJobRouter.js\<close> and the start-up module read and write exactly these fields). The
  identifier is a parameter: a stored job has a \<open>string\<close> (the specification's "unique,
  stable string"), the argument of \<^verbatim>\<open>upsertJob\<close> carries whatever JSON value the file had.
\<close>

record 'i job =
  jobId :: 'i
  name :: json
  enabled :: bool
  provider :: json
  notificationAdapter :: "json list"
  userId :: string
  shareWithUsers :: json
  blacklist :: json

type_synonym job_store = "string job list"

text \<open>
  Modelled from the spec: \<^verbatim>\<open>jobStorage.js\<close> is not among the sources. Section 6 gives its
  interface (\<^verbatim>\<open>getJobs() \<rightarrow> sequence of Job\<close>, \<^verbatim>\<open>upsertJob(jobData) \<rightarrow> void\<close>,
  \<^verbatim>\<open>removeJob(id) \<rightarrow> void\<close>) and section 3 makes the identifier a unique string. The store is the
  sequence of its jobs; an upsert replaces the job that has the identifier, in its place,
  or appends a new one; an upsert whose identifier is not a string is a storage error; a
  removal deletes the job that has the identifier.
\<close>

definition getJobs :: "job_store \<Rightarrow> string job list" where
  "getJobs js = js"

text \<open>
  Modelled from the spec: the effect of an upsert on the sequence of jobs, the stored job
  given. The job that has the identifier is replaced where it stands; a job with a new
  identifier is appended.
\<close>

definition put_job :: "string job \<Rightarrow> job_store \<Rightarrow> job_store" where
  "put_job j js =
     (if jobId j \<in> set (map jobId js)
      then map (\<lambda>x. if jobId x = jobId j then j else x) js
      else js @ [j])"

text \<open>
  Modelled from the spec: \<^verbatim>\<open>upsertJob(jobData)\<close>. The stored job has the fields of \<open>jobData\<close>,
  its owner among them. The specification's identifiers are strings, and it does not say
  what the store does with any other value. For such a value the model answers with a
  storage error, so that the job is skipped; this is a convention of the model, not a
  fact of the store, and the idempotence of the sync is stated below only for files whose
  identifiers are strings.
\<close>

definition upsertJob :: "json job \<Rightarrow> job_store \<Rightarrow> js_error + job_store" where
  "upsertJob jd js =
     (case jobId jd of
        JStr i \<Rightarrow>
          Inr (put_job \<lparr>jobId = i, name = name jd, enabled = enabled jd, provider = provider jd,
                        notificationAdapter = notificationAdapter jd, userId = userId jd,
                        shareWithUsers = shareWithUsers jd, blacklist = blacklist jd\<rparr> js)
      | _ \<Rightarrow> Inl StorageError)"

text \<open>Modelled from the spec: \<^verbatim>\<open>removeJob(id)\<close> deletes the job that has the identifier.\<close>

definition removeJob :: "string \<Rightarrow> job_store \<Rightarrow> job_store" where
  "removeJob i js = filter (\<lambda>j. jobId j \<noteq> i) js"

record user =
  user_id :: string
  username :: string
  password :: string
  isAdmin :: bool

text \<open>
  Modelled from the spec: \<^verbatim>\<open>userStorage.js\<close> is not among the sources; section 6 gives
  \<^verbatim>\<open>getUser(id) \<rightarrow> User|absent\<close> and \<^verbatim>\<open>upsertUser(userData) \<rightarrow> void\<close>.
\<close>

definition getUser :: "string \<Rightarrow> user list \<Rightarrow> user option" where
  "getUser i us = find (\<lambda>u. user_id u = i) us"

text \<open>Modelled from the spec: \<^verbatim>\<open>upsertUser(userData)\<close> replaces or appends the user.\<close>

definition upsertUser :: "user \<Rightarrow> user list \<Rightarrow> user list" where
  "upsertUser u us =
     (if user_id u \<in> set (map user_id us)
      then map (\<lambda>x. if user_id x = user_id u then u else x) us
      else us @ [u])"

section \<open>The reconciler\<close>

definition CONFIG_SYNC_USER_ID :: string where
  "CONFIG_SYNC_USER_ID = ''config_sync''"

text \<open>What the reconciler writes to the logger, without the wording of the messages.\<close>

datatype sync_event =
    LogSyncAlreadyInProgress
  | LogSyncing
  | LogCreatedUser
  | LogNoJobsFound
  | LogSkippingJobWithoutId json
  | LogNoNotificationAdapters json
  | LogErrorSyncingJob json
  | LogRemovingJob string
  | LogSyncCompleted nat nat nat
  | LogErrorSyncingConfigJobs js_error

text \<open>The module's variables and the two stores. (The file watcher is left out.)\<close>

record sync_state =
  jobs :: job_store
  users :: "user list"
  syncInProgress :: bool
  lastSyncTime :: "nat option"
  sync_log :: "sync_event list"

definition logged :: "sync_event \<Rightarrow> sync_state \<Rightarrow> sync_state" where
  "logged ev st = st\<lparr>sync_log := sync_log st @ [ev]\<rparr>"

text \<open>Decimal digits of a number, for \<^verbatim>\<open>'config_sync_' + Date.now()\<close>.\<close>

function decimal :: "nat \<Rightarrow> string" where
  "decimal n = (if n < 10 then [char_of (48 + n)] else decimal (n div 10) @ [char_of (48 + n mod 10)])"
  by pat_completeness auto
termination
  by (relation "measure (\<lambda>n. n)") auto

declare decimal.simps [simp del]

text \<open>\<^verbatim>\<open>ensureConfigSyncUser()\<close>; \<open>now\<close> is the value of \<^verbatim>\<open>Date.now()\<close>.\<close>

definition ensureConfigSyncUser :: "nat \<Rightarrow> sync_state \<Rightarrow> sync_state" where
  "ensureConfigSyncUser now st =
     (case getUser CONFIG_SYNC_USER_ID (users st) of
        None \<Rightarrow>
          logged LogCreatedUser
            (st\<lparr>users := upsertUser \<lparr>user_id = CONFIG_SYNC_USER_ID, username = ''config_sync'',
                                      password = ''config_sync_'' @ decimal now, isAdmin = False\<rparr>
                               (users st)\<rparr>)
      | Some u \<Rightarrow> st)"

text \<open>
  The adapters of a job: its own converted adapters, or, when it has none, the converted
  global adapters of the configuration. \<^verbatim>\<open>currentConfig.adapters.forEach\<close> throws a
  \<^verbatim>\<open>TypeError\<close> when the truthy \<^verbatim>\<open>adapters\<close> is not an array.
\<close>

definition job_adapters :: "json \<Rightarrow> json \<Rightarrow> js_error + json list" where
  "job_adapters jobConfig currentConfig =
     (let notificationAdapters =
            (case get_prop jobConfig ''notificationAdapter'' of
               Some (JArr xs) \<Rightarrow> filter_Boolean (map convertNotificationAdapter xs)
             | _ \<Rightarrow> [])
      in if notificationAdapters = [] \<and> truthy currentConfig
            \<and> truthy_opt (get_prop currentConfig ''adapters'')
         then (case get_prop currentConfig ''adapters'' of
                 Some (JArr ys) \<Rightarrow>
                   Inr (notificationAdapters @ filter_Boolean (map convertNotificationAdapter ys))
               | _ \<Rightarrow> Inl TypeError)
         else Inr notificationAdapters)"

text \<open>The argument that \<^verbatim>\<open>syncJobToDatabase\<close> passes to \<^verbatim>\<open>upsertJob\<close>.\<close>

definition job_data :: "json \<Rightarrow> json \<Rightarrow> json list \<Rightarrow> json job" where
  "job_data jobConfig i adapters =
     \<lparr>jobId = i,
      name = or_else (get_prop jobConfig ''name'') i,
      enabled = (get_prop jobConfig ''enabled'' \<noteq> Some (JBool False)),
      provider = or_else (get_prop jobConfig ''provider'') (JArr []),
      notificationAdapter = adapters,
      userId = CONFIG_SYNC_USER_ID,
      shareWithUsers = or_else (get_prop jobConfig ''user_ids'') (JArr []),
      blacklist = or_else (get_prop jobConfig ''blacklist'') (JArr [])\<rparr>"

text \<open>
  \<^verbatim>\<open>syncJobToDatabase(jobConfig, currentConfig)\<close>: \<open>Inr b\<close> is the returned boolean. Every
  throw inside the \<^verbatim>\<open>try\<close> is caught and answered with \<^verbatim>\<open>false\<close>, except for a \<^verbatim>\<open>null\<close>
  \<open>jobConfig\<close>: there \<^verbatim>\<open>jobConfig.id\<close> throws in the \<^verbatim>\<open>try\<close> and again in the \<^verbatim>\<open>catch\<close>, which
  formats the message with it.
\<close>

definition syncJobToDatabase :: "json \<Rightarrow> json \<Rightarrow> sync_state \<Rightarrow> (js_error + bool) \<times> sync_state" where
  "syncJobToDatabase jobConfig currentConfig st =
     (if jobConfig = JNull then (Inl TypeError, st)
      else case get_prop jobConfig ''id'' of
        None \<Rightarrow>
          (Inr False,
           logged (LogSkippingJobWithoutId (or_else (get_prop jobConfig ''name'') (JStr ''unnamed''))) st)
      | Some i \<Rightarrow>
          if \<not> truthy i
          then (Inr False,
                logged (LogSkippingJobWithoutId (or_else (get_prop jobConfig ''name'') (JStr ''unnamed''))) st)
          else (case job_adapters jobConfig currentConfig of
                  Inl e \<Rightarrow> (Inr False, logged (LogErrorSyncingJob i) st)
                | Inr adapters \<Rightarrow>
                    if adapters = [] then (Inr False, logged (LogNoNotificationAdapters i) st)
                    else (case upsertJob (job_data jobConfig i adapters) (jobs st) of
                            Inl e \<Rightarrow> (Inr False, logged (LogErrorSyncingJob i) st)
                          | Inr js \<Rightarrow> (Inr True, st\<lparr>jobs := js\<rparr>))))"

text \<open>The loop \<^verbatim>\<open>for (const jobConfig of configJobs)\<close> with its two counters.\<close>

fun sync_each :: "json list \<Rightarrow> json \<Rightarrow> nat \<Rightarrow> nat \<Rightarrow> sync_state \<Rightarrow> (js_error + nat \<times> nat) \<times> sync_state" where
  "sync_each [] currentConfig syncedCount skippedCount st = (Inr (syncedCount, skippedCount), st)"
| "sync_each (jobConfig # rest) currentConfig syncedCount skippedCount st =
     (case syncJobToDatabase jobConfig currentConfig st of
        (Inl e, st') \<Rightarrow> (Inl e, st')
      | (Inr True, st') \<Rightarrow> sync_each rest currentConfig (Suc syncedCount) skippedCount st'
      | (Inr False, st') \<Rightarrow> sync_each rest currentConfig syncedCount (Suc skippedCount) st')"

text \<open>The loop \<^verbatim>\<open>for (const job of jobsToRemove)\<close>.\<close>

fun remove_each :: "string job list \<Rightarrow> sync_state \<Rightarrow> sync_state" where
  "remove_each [] st = st"
| "remove_each (j # rest) st =
     remove_each rest ((logged (LogRemovingJob (jobId j)) st)\<lparr>jobs := removeJob (jobId j) (jobs (logged (LogRemovingJob (jobId j)) st))\<rparr>)"

text \<open>
  \<^verbatim>\<open>configJobs.length === 0\<close> for the value \<^verbatim>\<open>currentConfig.jobs || []\<close>, which is an array when
  the file is well formed and any truthy JSON value otherwise.
\<close>

fun length_is_zero :: "json \<Rightarrow> bool" where
  "length_is_zero (JArr xs) = (xs = [])"
| "length_is_zero (JStr s) = (s = [])"
| "length_is_zero (JObj kvs) = (map_of kvs ''length'' = Some (JNum 0))"
| "length_is_zero v = False"

text \<open>
  The \<^verbatim>\<open>try\<close> block of \<^verbatim>\<open>syncConfigJobsToDatabase\<close>. \<open>t_user\<close> and \<open>t_done\<close> are the two readings
  of \<^verbatim>\<open>Date.now()\<close>; \<open>rd\<close> is what \<^verbatim>\<open>refreshConfig\<close> followed by \<^verbatim>\<open>readConfigFromStorage\<close> gives: the
  freshly parsed file, or a throw. \<open>Inl e\<close> in the result is a throw that reaches the
  \<^verbatim>\<open>catch\<close>: reading \<^verbatim>\<open>jobs\<close> of a \<^verbatim>\<open>null\<close> configuration, \<^verbatim>\<open>configJobs.map\<close> on a value that is
  not an array, and \<^verbatim>\<open>job.id\<close> on a \<^verbatim>\<open>null\<close> element in \<^verbatim>\<open>configJobs.map((job) => job.id)\<close>, all
  of them before the first upsert. (\<^verbatim>\<open>existingJobIds\<close> is computed and never read.)
\<close>

definition sync_try :: "env \<Rightarrow> nat \<Rightarrow> nat \<Rightarrow> js_error + json \<Rightarrow> sync_state \<Rightarrow> (js_error + unit) \<times> sync_state" where
  "sync_try e t_user t_done rd st0 =
     (let st = ensureConfigSyncUser t_user (logged LogSyncing st0) in
      case rd of
        Inl err \<Rightarrow> (Inl err, st)
      | Inr raw \<Rightarrow>
          let currentConfig = replaceEnvPlaceholdersSimple e raw in
          if currentConfig = JNull then (Inl TypeError, st)
          else
            let configJobs = or_else (get_prop currentConfig ''jobs'') (JArr []) in
            if length_is_zero configJobs
            then (Inr (), (logged LogNoJobsFound st)\<lparr>syncInProgress := False\<rparr>)
            else (case configJobs of
                    JArr cjs \<Rightarrow>
                      let existingJobs = filter (\<lambda>job. userId job = CONFIG_SYNC_USER_ID) (getJobs (jobs st));
                          configJobIds = map (\<lambda>job. get_prop job ''id'') cjs
                      in if JNull \<in> set cjs then (Inl TypeError, st)
                         else (case sync_each cjs currentConfig 0 0 st of
                                 (Inl err, st') \<Rightarrow> (Inl err, st')
                               | (Inr (syncedCount, skippedCount), st') \<Rightarrow>
                                   let jobsToRemove =
                                         filter (\<lambda>job. Some (JStr (jobId job)) \<notin> set configJobIds) existingJobs;
                                       st'' = remove_each jobsToRemove st'
                                   in (Inr (),
                                       logged (LogSyncCompleted syncedCount skippedCount (length jobsToRemove))
                                         (st''\<lparr>lastSyncTime := Some t_done\<rparr>)))
                  | _ \<Rightarrow> (Inl TypeError, st)))"

text \<open>\<^verbatim>\<open>syncConfigJobsToDatabase()\<close>: the guard, the \<^verbatim>\<open>try\<close>, the \<^verbatim>\<open>catch\<close> and the \<^verbatim>\<open>finally\<close>.\<close>

definition syncConfigJobsToDatabase :: "env \<Rightarrow> nat \<Rightarrow> nat \<Rightarrow> js_error + json \<Rightarrow> sync_state \<Rightarrow> sync_state" where
  "syncConfigJobsToDatabase e t_user t_done rd st =
     (if syncInProgress st then logged LogSyncAlreadyInProgress st
      else
        (case sync_try e t_user t_done rd (st\<lparr>syncInProgress := True\<rparr>) of
           (Inl err, st') \<Rightarrow> (logged (LogErrorSyncingConfigJobs err) st')\<lparr>syncInProgress := False\<rparr>
         | (Inr u, st') \<Rightarrow> st'\<lparr>syncInProgress := False\<rparr>))"

section \<open>The effect of a sync on the job store\<close>

text \<open>
  Notions used to state and prove the properties of the reconciler. \<open>job_upsert\<close> is the job
  that one call of \<open>syncJobToDatabase\<close> stores (\<open>None\<close> when the call skips the job);
  \<open>upserts\<close> collects them over the job list of the file, in order; \<open>declared_ids\<close> is
  \<^verbatim>\<open>configJobIds\<close>; \<open>stale_ids\<close> are the identifiers of \<^verbatim>\<open>jobsToRemove\<close>; \<open>sync_jobs\<close> is
  the job store that a sync which passes its guard leaves behind, and \<open>last_put\<close> the last
  job of a list of upserts that has a given identifier.
\<close>

definition job_upsert :: "json \<Rightarrow> json \<Rightarrow> string job option" where
  "job_upsert jobConfig currentConfig =
     (case get_prop jobConfig ''id'' of
        Some (JStr i) \<Rightarrow>
          (if i = [] then None
           else case job_adapters jobConfig currentConfig of
                  Inl e \<Rightarrow> None
                | Inr adapters \<Rightarrow>
                    if adapters = [] then None
                    else Some \<lparr>jobId = i, name = or_else (get_prop jobConfig ''name'') (JStr i),
                               enabled = (get_prop jobConfig ''enabled'' \<noteq> Some (JBool False)),
                               provider = or_else (get_prop jobConfig ''provider'') (JArr []),
                               notificationAdapter = adapters, userId = CONFIG_SYNC_USER_ID,
                               shareWithUsers = or_else (get_prop jobConfig ''user_ids'') (JArr []),
                               blacklist = or_else (get_prop jobConfig ''blacklist'') (JArr [])\<rparr>)
      | _ \<Rightarrow> None)"

fun upserts :: "json list \<Rightarrow> json \<Rightarrow> string job list" where
  "upserts [] currentConfig = []"
| "upserts (jobConfig # rest) currentConfig =
     (case job_upsert jobConfig currentConfig of
        None \<Rightarrow> upserts rest currentConfig
      | Some j \<Rightarrow> j # upserts rest currentConfig)"

definition declared_ids :: "json list \<Rightarrow> json option list" where
  "declared_ids cjs = map (\<lambda>job. get_prop job ''id'') cjs"

definition stale_ids :: "json list \<Rightarrow> job_store \<Rightarrow> string set" where
  "stale_ids cjs js =
     jobId ` {j \<in> set js. userId j = CONFIG_SYNC_USER_ID
                \<and> Some (JStr (jobId j)) \<notin> set (declared_ids cjs)}"

definition sync_jobs :: "env \<Rightarrow> js_error + json \<Rightarrow> job_store \<Rightarrow> job_store" where
  "sync_jobs e rd js =
     (case rd of
        Inl err \<Rightarrow> js
      | Inr raw \<Rightarrow>
          (case or_else (get_prop (replaceEnvPlaceholdersSimple e raw) ''jobs'') (JArr []) of
             JArr cjs \<Rightarrow>
               if cjs = [] \<or> JNull \<in> set cjs then js
               else filter (\<lambda>j. jobId j \<notin> stale_ids cjs js)
                      (fold put_job (upserts cjs (replaceEnvPlaceholdersSimple e raw)) js)
           | _ \<Rightarrow> js))"

definition last_put :: "string job list \<Rightarrow> string \<Rightarrow> string job option" where
  "last_put us = map_of (rev (map (\<lambda>u. (jobId u, u)) us))"






fun is_removal :: "sync_event \<Rightarrow> bool" where
  "is_removal (LogRemovingJob i) = True"
| "is_removal ev = False"

section \<open>Provider modules, tasks and the execution cycle\<close>

text \<open>
  A loaded provider module as the start-up module uses it: \<^verbatim>\<open>metaInformation.id\<close>,
  \<^verbatim>\<open>init(binding, blacklist)\<close> and the module's \<^verbatim>\<open>config\<close>. The modules themselves are not
  among the sources, so \<open>init\<close> is a parameter: from the module's current \<^verbatim>\<open>config\<close>, the
  binding and the blacklist it gives the new \<^verbatim>\<open>config\<close>, or throws.
\<close>

record provider_module =
  metaInformation_id :: "string option"
  init :: "json \<Rightarrow> json \<Rightarrow> json \<Rightarrow> js_error + json"

text \<open>
  \<^verbatim>\<open>new Map(providers.filter((p) => p?.metaInformation?.id).map((p) => [p.metaInformation.id, p]))\<close>:
  a module without a truthy identifier is left out, and of two modules with one identifier
  the later one is kept.
\<close>

fun provider_entries :: "provider_module list \<Rightarrow> (string \<times> provider_module) list" where
  "provider_entries [] = []"
| "provider_entries (p # ps) =
     (case metaInformation_id p of
        None \<Rightarrow> provider_entries ps
      | Some i \<Rightarrow> if i = [] then provider_entries ps else (i, p) # provider_entries ps)"

definition providerMap :: "provider_module list \<Rightarrow> string \<Rightarrow> provider_module option" where
  "providerMap providers = map_of (rev (provider_entries providers))"

text \<open>\<^verbatim>\<open>providerMap.get(prov.id)\<close>: the keys are strings, so any other key finds nothing.\<close>

fun map_get :: "(string \<Rightarrow> provider_module option) \<Rightarrow> json option \<Rightarrow> provider_module option" where
  "map_get m (Some (JStr s)) = m s"
| "map_get m k = None"

text \<open>
  A task is the closure pushed on \<^verbatim>\<open>tasks\<close>; it captures \<^verbatim>\<open>matchedProvider\<close>, \<^verbatim>\<open>prov\<close> and
  \<^verbatim>\<open>job\<close>.
\<close>

datatype task = Task provider_module json "string job"

text \<open>What the cycle writes to the logger, and its calls of the external operations.\<close>

datatype exec_event =
    DebugPreviousExecutionStillRunning
  | DebugDemoModeActive
  | DebugOutsideWorkingHours
  | WarnProviderNotAvailable "json option" string
  | DebugNoProviderExecutions
  | DebugQueued nat int
  | ErrorExecutingPipeline "json option" string
  | ErrorUnexpected js_error
  | CalledInit "string option" json json
  | CalledPipeline json "json list" "json option" string

text \<open>
  The state that the cycle reads and writes: the flag \<^verbatim>\<open>executionInFlight\<close>, \<^verbatim>\<open>config.lastRun\<close>,
  the \<^verbatim>\<open>config\<close> of every provider module (by the module's \<^verbatim>\<open>metaInformation.id\<close>) and the
  trace of log lines and external calls.
\<close>

record world =
  executionInFlight :: bool
  lastRun :: "nat option"
  provider_config :: "string option \<Rightarrow> json"
  trace :: "exec_event list"

definition traced :: "exec_event \<Rightarrow> world \<Rightarrow> world" where
  "traced ev w = w\<lparr>trace := trace w @ [ev]\<rparr>"

text \<open>
  The filter on \<^verbatim>\<open>jobStorage.getJobs()\<close>:
  \<^verbatim>\<open>job.enabled && Array.isArray(job.provider) && job.provider.length > 0\<close>.
\<close>

definition schedulable :: "string job \<Rightarrow> bool" where
  "schedulable job = (enabled job \<and> (case provider job of JArr ps \<Rightarrow> ps \<noteq> [] | _ \<Rightarrow> False))"

text \<open>
  The inner loop \<^verbatim>\<open>for (const prov of job.provider)\<close>. Reading \<^verbatim>\<open>prov.id\<close> of a \<^verbatim>\<open>null\<close>
  binding throws; the tasks pushed so far are lost with the throw, the warnings already
  logged are not.
\<close>

fun plan_bindings ::
  "(string \<Rightarrow> provider_module option) \<Rightarrow> string job \<Rightarrow> json list \<Rightarrow> task list \<Rightarrow> world
    \<Rightarrow> (js_error + task list) \<times> world" where
  "plan_bindings pm job [] tasks w = (Inr tasks, w)"
| "plan_bindings pm job (prov # rest) tasks w =
     (if prov = JNull then (Inl TypeError, w)
      else case map_get pm (get_prop prov ''id'') of
             None \<Rightarrow>
               plan_bindings pm job rest tasks
                 (traced (WarnProviderNotAvailable (get_prop prov ''id'') (jobId job)) w)
           | Some matchedProvider \<Rightarrow>
               plan_bindings pm job rest (tasks @ [Task matchedProvider prov job]) w)"

text \<open>
  The outer loop \<^verbatim>\<open>for (const job of jobs)\<close>, over the jobs that passed the filter (whose
  \<^verbatim>\<open>provider\<close> is an array; iterating any other value is answered with a \<^verbatim>\<open>TypeError\<close>).
\<close>

fun plan_jobs ::
  "(string \<Rightarrow> provider_module option) \<Rightarrow> string job list \<Rightarrow> task list \<Rightarrow> world
    \<Rightarrow> (js_error + task list) \<times> world" where
  "plan_jobs pm [] tasks w = (Inr tasks, w)"
| "plan_jobs pm (job # rest) tasks w =
     (case provider job of
        JArr provs \<Rightarrow>
          (case plan_bindings pm job provs tasks w of
             (Inl e, w') \<Rightarrow> (Inl e, w')
           | (Inr tasks', w') \<Rightarrow> plan_jobs pm rest tasks' w')
      | _ \<Rightarrow> (Inl TypeError, w))"

text \<open>
  The body of a task. \<open>pipeline\<close> stands for \<^verbatim>\<open>new FredyPipeline(...).execute()\<close>, which is not
  among the sources: \<open>Inl\<close> when it throws or rejects. \<^verbatim>\<open>init\<close> is called first, inside the
  task's \<^verbatim>\<open>try\<close>; when it throws, the pipeline is not run and the \<^verbatim>\<open>catch\<close> logs the error.
\<close>

fun run_task ::
  "(json \<Rightarrow> json list \<Rightarrow> json option \<Rightarrow> string \<Rightarrow> js_error + unit) \<Rightarrow> task \<Rightarrow> world \<Rightarrow> world" where
  "run_task pipeline (Task matchedProvider prov job) w =
     (let w1 = traced (CalledInit (metaInformation_id matchedProvider) prov (blacklist job)) w in
      case init matchedProvider (provider_config w1 (metaInformation_id matchedProvider)) prov (blacklist job) of
        Inl e \<Rightarrow> traced (ErrorExecutingPipeline (get_prop prov ''id'') (jobId job)) w1
      | Inr cfg \<Rightarrow>
          let w2 = traced (CalledPipeline cfg (notificationAdapter job) (get_prop prov ''id'') (jobId job))
                     (w1\<lparr>provider_config := (provider_config w1)(metaInformation_id matchedProvider := cfg)\<rparr>)
          in (case pipeline cfg (notificationAdapter job) (get_prop prov ''id'') (jobId job) of
                Inl e \<Rightarrow> traced (ErrorExecutingPipeline (get_prop prov ''id'') (jobId job)) w2
              | Inr u \<Rightarrow> w2))"

text \<open>How a call of \<^verbatim>\<open>execute\<close> stands at its first suspension point or at its end.\<close>

datatype exec_status = Returned | Threw js_error | Awaiting "task list"

text \<open>
  The \<^verbatim>\<open>try\<close> block of \<^verbatim>\<open>execute\<close> up to \<^verbatim>\<open>await runWithConcurrency(tasks, pipelineConcurrency)\<close>.
  \<open>demoMode\<close> is \<^verbatim>\<open>config.demoMode\<close>, \<open>working\<close> the answer of \<^verbatim>\<open>duringWorkingHoursOrNotSet\<close>
  (of \<^verbatim>\<open>utils.js\<close>, not among the sources), \<open>now\<close> is \<^verbatim>\<open>Date.now()\<close>, \<open>js\<close> the job store.
\<close>

definition execute_try ::
  "bool \<Rightarrow> bool \<Rightarrow> nat \<Rightarrow> (string \<Rightarrow> provider_module option) \<Rightarrow> int \<Rightarrow> job_store \<Rightarrow> world
    \<Rightarrow> exec_status \<times> world" where
  "execute_try demoMode working now pm pipelineConcurrency js w =
     (if demoMode then (Returned, traced DebugDemoModeActive w)
      else if \<not> working then (Returned, traced DebugOutsideWorkingHours w)
      else
        (case plan_jobs pm (filter schedulable (getJobs js)) [] (w\<lparr>lastRun := Some now\<rparr>) of
           (Inl e, w') \<Rightarrow> (Threw e, w')
         | (Inr tasks, w') \<Rightarrow>
             if tasks = [] then (Returned, traced DebugNoProviderExecutions w')
             else (Awaiting tasks, traced (DebugQueued (length tasks) pipelineConcurrency) w')))"

text \<open>
  \<^verbatim>\<open>execute()\<close> from its call to its first suspension: the single-flight guard, the \<^verbatim>\<open>try\<close>, and
  the \<^verbatim>\<open>finally\<close> on every path that does not reach the \<^verbatim>\<open>await\<close>.
\<close>

definition execute_start ::
  "bool \<Rightarrow> bool \<Rightarrow> nat \<Rightarrow> (string \<Rightarrow> provider_module option) \<Rightarrow> int \<Rightarrow> job_store \<Rightarrow> world
    \<Rightarrow> exec_status \<times> world" where
  "execute_start demoMode working now pm pipelineConcurrency js w =
     (if executionInFlight w then (Returned, traced DebugPreviousExecutionStillRunning w)
      else
        (case execute_try demoMode working now pm pipelineConcurrency js (w\<lparr>executionInFlight := True\<rparr>) of
           (Awaiting tasks, w') \<Rightarrow> (Awaiting tasks, w')
         | (Returned, w') \<Rightarrow> (Returned, w'\<lparr>executionInFlight := False\<rparr>)
         | (Threw e, w') \<Rightarrow> (Threw e, w'\<lparr>executionInFlight := False\<rparr>)))"

text \<open>
  \<^verbatim>\<open>execute()\<close> after the \<^verbatim>\<open>await\<close>: \<open>r\<close> is how the promise of \<^verbatim>\<open>runWithConcurrency\<close> settled. The
  \<^verbatim>\<open>finally\<close> block runs in both cases.
\<close>

definition execute_resume :: "js_error + unit \<Rightarrow> world \<Rightarrow> exec_status \<times> world" where
  "execute_resume r w =
     (case r of
        Inl e \<Rightarrow> (Threw e, w\<lparr>executionInFlight := False\<rparr>)
      | Inr u \<Rightarrow> (Returned, w\<lparr>executionInFlight := False\<rparr>))"

text \<open>
  \<^verbatim>\<open>triggerExecution()\<close>: \<^verbatim>\<open>execute().catch(...)\<close> logs a rejection of \<^verbatim>\<open>execute\<close> that happens
  before its first suspension. \<open>trigger_all\<close> is a sequence of such calls, each with its own
  readings of the configuration, the clock and the store.
\<close>

definition triggerExecution ::
  "bool \<Rightarrow> bool \<Rightarrow> nat \<Rightarrow> (string \<Rightarrow> provider_module option) \<Rightarrow> int \<Rightarrow> job_store \<Rightarrow> world
    \<Rightarrow> exec_status \<times> world" where
  "triggerExecution demoMode working now pm pipelineConcurrency js w =
     (case execute_start demoMode working now pm pipelineConcurrency js w of
        (Threw e, w') \<Rightarrow> (Threw e, traced (ErrorUnexpected e) w')
      | (Returned, w') \<Rightarrow> (Returned, w')
      | (Awaiting tasks, w') \<Rightarrow> (Awaiting tasks, w'))"

fun trigger_all ::
  "(bool \<times> bool \<times> nat \<times> job_store) list \<Rightarrow> (string \<Rightarrow> provider_module option) \<Rightarrow> int \<Rightarrow> world \<Rightarrow> world" where
  "trigger_all [] pm pipelineConcurrency w = w"
| "trigger_all ((demoMode, working, now, js) # rest) pm pipelineConcurrency w =
     trigger_all rest pm pipelineConcurrency
       (snd (triggerExecution demoMode working now pm pipelineConcurrency js w))"

text \<open>
  The state when the start-up module has declared \<^verbatim>\<open>let executionInFlight = false\<close>: no cycle
  has run, nothing is logged, and every provider module has an empty \<^verbatim>\<open>config\<close>.
\<close>

definition initial_config :: "string option \<Rightarrow> json" where
  "initial_config m = JObj []"

definition initial_world :: world where
  "initial_world =
     \<lparr>executionInFlight = False, lastRun = None, provider_config = initial_config, trace = []\<rparr>"

text \<open>The events that are calls of \<^verbatim>\<open>init\<close> or of the pipeline.\<close>

fun is_call :: "exec_event \<Rightarrow> bool" where
  "is_call (CalledInit m prov bl) = True"
| "is_call (CalledPipeline cfg ads k i) = True"
| "is_call ev = False"

text \<open>
  For the examples: an \<^verbatim>\<open>init\<close> that always throws, one that adopts the binding as the
  module's \<^verbatim>\<open>config\<close>, and a pipeline that succeeds.
\<close>

definition quiet_pipeline :: "json \<Rightarrow> json list \<Rightarrow> json option \<Rightarrow> string \<Rightarrow> js_error + unit" where
  "quiet_pipeline cfg ads k i = Inr ()"

definition throwing_init :: "json \<Rightarrow> json \<Rightarrow> json \<Rightarrow> js_error + json" where
  "throwing_init cfg prov bl = Inl TypeError"

definition adopting_init :: "json \<Rightarrow> json \<Rightarrow> json \<Rightarrow> js_error + json" where
  "adopting_init cfg prov bl = Inr prov"

text \<open>
  The planner as the specification words it: the jobs that are enabled and have a
  non-empty list of bindings, in their order; for each, its bindings in their order; a
  task for every binding whose provider identifier is in the registry, a warning for
  every other binding.
\<close>

definition bindings :: "string job \<Rightarrow> json list" where
  "bindings job = (case provider job of JArr ps \<Rightarrow> ps | _ \<Rightarrow> [])"

definition binding_tasks :: "(string \<Rightarrow> provider_module option) \<Rightarrow> string job \<Rightarrow> json \<Rightarrow> task list" where
  "binding_tasks pm job prov =
     (case map_get pm (get_prop prov ''id'') of None \<Rightarrow> [] | Some m \<Rightarrow> [Task m prov job])"

definition binding_warnings :: "(string \<Rightarrow> provider_module option) \<Rightarrow> string job \<Rightarrow> json \<Rightarrow> exec_event list" where
  "binding_warnings pm job prov =
     (case map_get pm (get_prop prov ''id'') of
        None \<Rightarrow> [WarnProviderNotAvailable (get_prop prov ''id'') (jobId job)]
      | Some m \<Rightarrow> [])"

definition planned_tasks :: "(string \<Rightarrow> provider_module option) \<Rightarrow> string job list \<Rightarrow> task list" where
  "planned_tasks pm js =
     concat (map (\<lambda>job. concat (map (binding_tasks pm job) (bindings job))) (filter schedulable js))"

definition planned_warnings :: "(string \<Rightarrow> provider_module option) \<Rightarrow> string job list \<Rightarrow> exec_event list" where
  "planned_warnings pm js =
     concat (map (\<lambda>job. concat (map (binding_warnings pm job) (bindings job))) (filter schedulable js))"

section \<open>The bounded runner\<close>

text \<open>
  \<^verbatim>\<open>runWithConcurrency(tasks, limit)\<close> runs on one thread: between two suspension points its
  code is not interrupted, and it is resumed by the promises it awaits. The model is the
  transition system of this cooperative interleaving. The task at index \<open>i\<close> of \<^verbatim>\<open>tasks\<close> and
  the promise \<^verbatim>\<open>Promise.resolve().then(task)\<close> made for it are both called \<open>i\<close>.
\<close>

datatype outcome = Fulfilled | Rejected

text \<open>
  Where the runner stands: in the \<^verbatim>\<open>for\<close> loop (or at its end), suspended in \<^verbatim>\<open>waitForNext\<close> on
  \<^verbatim>\<open>Promise.race(executing)\<close>, suspended on \<^verbatim>\<open>Promise.allSettled(executing)\<close>, returned, or
  rejected. The two suspended states keep the promises that \<^verbatim>\<open>race\<close> and \<^verbatim>\<open>allSettled\<close> read from
  the set when they were called.
\<close>

datatype runner_pc =
    Submitting
  | AwaitingRace "nat list"
  | AwaitingAllSettled "nat list"
  | RunnerReturned
  | RunnerRejected

text \<open>
  \<open>todo\<close>: the tasks the loop has not reached yet; \<open>executing\<close>: the set \<^verbatim>\<open>executing\<close>, in
  insertion order; \<open>pending\<close>: the promises made and not yet settled, which are the tasks
  that are unsettled; \<open>settled\<close>: the settled promises, each with its outcome.
\<close>

record runner =
  todo :: "nat list"
  executing :: "nat list"
  pending :: "nat list"
  settled :: "(nat \<times> outcome) list"
  pc :: runner_pc

text \<open>\<^verbatim>\<open>Math.max(limit || 1, 1)\<close> for an integer \<open>limit\<close>.\<close>

definition maxParallel :: "int \<Rightarrow> nat" where
  "maxParallel limit = nat (max (if limit = 0 then 1 else limit) 1)"

text \<open>\<^verbatim>\<open>executing.add(promise)\<close>.\<close>

definition set_add :: "nat \<Rightarrow> nat list \<Rightarrow> nat list" where
  "set_add i xs = (if i \<in> set xs then xs else xs @ [i])"

text \<open>
  \<^verbatim>\<open>waitForNext\<close> is \<^verbatim>\<open>try { await Promise.race(executing) } catch { }\<close>: whatever the outcome of
  the race, its own promise is fulfilled. \<open>after_await\<close> is an \<^verbatim>\<open>await\<close> in the body of
  \<^verbatim>\<open>runWithConcurrency\<close>, outside any \<^verbatim>\<open>try\<close>: the runner goes on when the awaited promise is
  fulfilled and rejects when it is rejected. \<^verbatim>\<open>Promise.allSettled\<close> is always fulfilled.
\<close>

definition waitForNext :: "outcome \<Rightarrow> outcome" where
  "waitForNext race = (case race of Fulfilled \<Rightarrow> Fulfilled | Rejected \<Rightarrow> Fulfilled)"

definition allSettled :: "outcome list \<Rightarrow> outcome" where
  "allSettled outs = Fulfilled"

definition after_await :: "outcome \<Rightarrow> runner_pc \<Rightarrow> runner_pc" where
  "after_await out next = (case out of Fulfilled \<Rightarrow> next | Rejected \<Rightarrow> RunnerRejected)"

text \<open>
  The start: \<^verbatim>\<open>if (!Array.isArray(tasks) || tasks.length === 0) return\<close>, else an empty set
  and the loop at the first of the \<open>n\<close> tasks.
\<close>

definition runner_init :: "nat \<Rightarrow> runner" where
  "runner_init n =
     \<lparr>todo = [0..<n], executing = [], pending = [], settled = [],
      pc = (if n = 0 then RunnerReturned else Submitting)\<rparr>"

text \<open>
  The steps, for the bound \<open>mp\<close> (\<^verbatim>\<open>maxParallel\<close>).
  \<^item> \<open>submit\<close>: one turn of the loop. The promise is made and added to the set; when the
    set has reached the bound the runner suspends in \<^verbatim>\<open>waitForNext\<close>.
  \<^item> \<open>settle\<close>: a pending promise settles, fulfilled or rejected.
  \<^item> \<open>finally_cb\<close>: the callback given to \<^verbatim>\<open>promise.finally\<close> runs and deletes the settled
    promise from the set. (The promise that \<^verbatim>\<open>finally\<close> returns is dropped; when the task has
    rejected it rejects as well, which the handler of \<^verbatim>\<open>unhandledRejection\<close> logs.)
  \<^item> \<open>race_won\<close>: the runner is resumed from \<^verbatim>\<open>waitForNext\<close>. The race is settled by the
    reaction of a promise \<open>i\<close> that the race read from the set; that reaction was registered
    on \<open>i\<close> after the \<^verbatim>\<open>finally\<close> callback, and reactions of one promise run in the order
    of their registration, so \<open>i\<close> has settled and has been deleted from the set.
  \<^item> \<open>loop_end\<close>: the loop is over and the runner suspends on \<^verbatim>\<open>Promise.allSettled(executing)\<close>.
  \<^item> \<open>all_settled\<close>: every promise that \<^verbatim>\<open>allSettled\<close> read has settled; the runner returns.
  Promises may settle, and callbacks may run, at any point between two steps of the
  runner: the relation has every interleaving of the event loop, and more.
\<close>

inductive runner_step :: "nat \<Rightarrow> runner \<Rightarrow> runner \<Rightarrow> bool" where
  submit:
    "pc r = Submitting \<Longrightarrow> todo r = i # rest \<Longrightarrow>
     runner_step mp r
       (r\<lparr>todo := rest, executing := set_add i (executing r), pending := pending r @ [i],
          pc := (if mp \<le> length (set_add i (executing r))
                 then AwaitingRace (set_add i (executing r)) else Submitting)\<rparr>)"
| settle:
    "i \<in> set (pending r) \<Longrightarrow>
     runner_step mp r (r\<lparr>pending := removeAll i (pending r), settled := settled r @ [(i, out)]\<rparr>)"
| finally_cb:
    "(i, out) \<in> set (settled r) \<Longrightarrow> i \<in> set (executing r) \<Longrightarrow>
     runner_step mp r (r\<lparr>executing := removeAll i (executing r)\<rparr>)"
| race_won:
    "pc r = AwaitingRace snap \<Longrightarrow> i \<in> set snap \<Longrightarrow> (i, out) \<in> set (settled r) \<Longrightarrow>
     i \<notin> set (executing r) \<Longrightarrow>
     runner_step mp r (r\<lparr>pc := after_await (waitForNext out) Submitting\<rparr>)"
| loop_end:
    "pc r = Submitting \<Longrightarrow> todo r = [] \<Longrightarrow>
     runner_step mp r (r\<lparr>pc := AwaitingAllSettled (executing r)\<rparr>)"
| all_settled:
    "pc r = AwaitingAllSettled snap \<Longrightarrow> set snap \<subseteq> fst ` set (settled r) \<Longrightarrow>
     runner_step mp r
       (r\<lparr>pc := after_await (allSettled (map snd (filter (\<lambda>p. fst p \<in> set snap) (settled r))))
                   RunnerReturned\<rparr>)"

text \<open>The states of a call \<^verbatim>\<open>runWithConcurrency(tasks, limit)\<close> with \<open>n\<close> tasks.\<close>

inductive runner_reachable :: "nat \<Rightarrow> int \<Rightarrow> runner \<Rightarrow> bool" where
  start: "runner_reachable n limit (runner_init n)"
| step: "runner_reachable n limit r \<Longrightarrow> runner_step (maxParallel limit) r r' \<Longrightarrow>
         runner_reachable n limit r'"

text \<open>The invariant of the runner, for \<open>n\<close> tasks and the bound \<open>mp\<close>.\<close>

definition runner_inv :: "nat \<Rightarrow> nat \<Rightarrow> runner \<Rightarrow> bool" where
  "runner_inv n mp r \<longleftrightarrow>
     distinct (todo r) \<and> distinct (executing r) \<and> distinct (pending r)
     \<and> set (pending r) \<subseteq> set (executing r)
     \<and> set (executing r) \<subseteq> {0..<n}
     \<and> set (executing r) \<inter> set (todo r) = {}
     \<and> fst ` set (settled r) \<inter> set (todo r) = {}
     \<and> fst ` set (settled r) \<inter> set (pending r) = {}
     \<and> set (todo r) \<union> set (pending r) \<union> fst ` set (settled r) = {0..<n}
     \<and> length (executing r) \<le> mp
     \<and> (case pc r of
           Submitting \<Rightarrow> length (executing r) < mp
         | AwaitingRace snap \<Rightarrow>
             set (executing r) \<subseteq> set snap \<and> distinct snap \<and> length snap \<le> mp
             \<and> snap \<noteq> [] \<and> set snap \<subseteq> {0..<n} \<and> set snap \<inter> set (todo r) = {}
         | AwaitingAllSettled snap \<Rightarrow>
             todo r = [] \<and> set (executing r) \<subseteq> set snap \<and> set snap \<subseteq> {0..<n}
         | RunnerReturned \<Rightarrow> todo r = [] \<and> pending r = []
         | RunnerRejected \<Rightarrow> False)"

section \<open>Properties of the reconciler\<close>

lemma jobs_logged [simp]: "jobs (logged ev st) = jobs st"
  and users_logged [simp]: "users (logged ev st) = users st"
  and inprogress_logged [simp]: "syncInProgress (logged ev st) = syncInProgress st"
  by (simp_all add: logged_def)

lemma jobs_ensure [simp]: "jobs (ensureConfigSyncUser t st) = jobs st"
  by (simp add: ensureConfigSyncUser_def split: option.splits)

lemma syncJob_jobs:
  "jobConfig \<noteq> JNull \<Longrightarrow>
   jobs (snd (syncJobToDatabase jobConfig cfg st)) =
     (case job_upsert jobConfig cfg of None \<Rightarrow> jobs st | Some j \<Rightarrow> put_job j (jobs st))"
  by (auto simp: syncJobToDatabase_def job_upsert_def upsertJob_def job_data_def
           split: option.splits json.splits sum.splits)

lemma syncJob_ok:
  "jobConfig \<noteq> JNull \<Longrightarrow> \<exists>b. fst (syncJobToDatabase jobConfig cfg st) = Inr b"
  by (auto simp: syncJobToDatabase_def split: option.splits sum.splits)

lemma sync_each_jobs:
  "JNull \<notin> set cjs \<Longrightarrow>
   (\<exists>c. fst (sync_each cjs cfg a b st) = Inr c)
   \<and> jobs (snd (sync_each cjs cfg a b st)) = fold put_job (upserts cjs cfg) (jobs st)"
proof (induction cjs arbitrary: a b st)
  case Nil
  then show ?case by simp
next
  case (Cons jc rest)
  then have nn: "jc \<noteq> JNull" and r: "JNull \<notin> set rest" by auto
  obtain r1 st1 where s: "syncJobToDatabase jc cfg st = (r1, st1)" by fastforce
  from syncJob_ok[OF nn, of cfg st] s obtain bb where r1: "r1 = Inr bb" by auto
  from syncJob_jobs[OF nn, of cfg st] s
  have j1: "jobs st1 = (case job_upsert jc cfg of None \<Rightarrow> jobs st | Some j \<Rightarrow> put_job j (jobs st))"
    by simp
  show ?case
    using Cons.IH[OF r, of _ _ st1] s r1 j1
    by (cases bb) (auto split: option.splits)
qed

lemma remove_each_jobs:
  "jobs (remove_each rs st) = filter (\<lambda>j. jobId j \<notin> jobId ` set rs) (jobs st)"
  by (induction rs arbitrary: st) (auto simp: removeJob_def intro: filter_cong)

lemma sync_try_jobs:
  "jobs (snd (sync_try e t1 t2 rd st)) = sync_jobs e rd (jobs st)"
proof (cases rd)
  case (Inl err)
  then show ?thesis by (simp add: sync_try_def sync_jobs_def)
next
  case (Inr raw)
  let ?cfg = "replaceEnvPlaceholdersSimple e raw"
  let ?cj = "or_else (get_prop ?cfg ''jobs'') (JArr [])"
  let ?st = "ensureConfigSyncUser t1 (logged LogSyncing st)"
  show ?thesis
  proof (cases "\<exists>cjs. ?cj = JArr cjs \<and> cjs \<noteq> [] \<and> JNull \<notin> set cjs")
    case True
    then obtain cjs where cj: "?cj = JArr cjs" and ne: "cjs \<noteq> []" and nn: "JNull \<notin> set cjs"
      by blast
    from cj ne have notnull: "?cfg \<noteq> JNull" by (auto split: if_splits)
    obtain c st' where se: "sync_each cjs ?cfg 0 0 ?st = (Inr c, st')"
      and js': "jobs st' = fold put_job (upserts cjs ?cfg) (jobs st)"
      using sync_each_jobs[OF nn, of ?cfg 0 0 ?st] by (cases "sync_each cjs ?cfg 0 0 ?st") auto
    obtain sc sk where c: "c = (sc, sk)" by (cases c)
    have st: "jobId ` set (filter (\<lambda>job. Some (JStr (jobId job)) \<notin> set (declared_ids cjs))
               (filter (\<lambda>job. userId job = CONFIG_SYNC_USER_ID) (getJobs (jobs ?st))))
             = stale_ids cjs (jobs st)"
      by (auto simp: stale_ids_def getJobs_def)
    have ids: "map (\<lambda>job. get_prop job ''id'') cjs = declared_ids cjs"
      by (simp add: declared_ids_def)
    show ?thesis
      using Inr cj ne nn notnull se c js' st
      by (simp add: sync_try_def sync_jobs_def Let_def remove_each_jobs ids del: set_filter set_map)
  next
    case False
    then have sj: "sync_jobs e rd (jobs st) = jobs st"
      using Inr by (auto simp: sync_jobs_def split: json.splits)
    have "jobs (snd (sync_try e t1 t2 rd st)) = jobs st"
      using Inr False
      by (auto simp: sync_try_def Let_def split: json.splits)
    with sj show ?thesis by simp
  qed
qed

lemma sync_jobs_eq:
  "jobs (syncConfigJobsToDatabase e t1 t2 rd st) =
     (if syncInProgress st then jobs st else sync_jobs e rd (jobs st))"
  using sync_try_jobs[of e t1 t2 rd "st\<lparr>syncInProgress := True\<rparr>"]
  by (auto simp: syncConfigJobsToDatabase_def split: prod.splits sum.splits)


lemma last_put_Nil [simp]: "last_put [] k = None"
  by (simp add: last_put_def)

lemma last_put_snoc [simp]:
  "last_put (us @ [u]) k = (if k = jobId u then Some u else last_put us k)"
  by (simp add: last_put_def)



lemma put_job_ids: "set (map jobId (put_job u js)) = insert (jobId u) (set (map jobId js))"
  by (auto simp: put_job_def)

lemma put_job_mem:
  "e \<in> set (put_job u js) \<longleftrightarrow> e = u \<or> (e \<in> set js \<and> jobId e \<noteq> jobId u)"
  by (auto simp: put_job_def image_iff)

lemma fold_put_snoc: "fold put_job (us @ [u]) js = put_job u (fold put_job us js)"
  by simp

lemma fold_put_ids:
  "set (map jobId (fold put_job us js)) = set (map jobId js) \<union> set (map jobId us)"
proof (induction us rule: rev_induct)
  case Nil
  then show ?case by simp
next
  case (snoc u us)
  have "set (map jobId (fold put_job (us @ [u]) js))
        = insert (jobId u) (set (map jobId (fold put_job us js)))"
    by (simp only: fold_put_snoc put_job_ids)
  with snoc show ?case by auto
qed

lemma fold_put_mem:
  "e \<in> set (fold put_job us js) \<longleftrightarrow>
     (last_put us (jobId e) = Some e \<or> (e \<in> set js \<and> jobId e \<notin> jobId ` set us))"
proof (induction us rule: rev_induct)
  case Nil
  then show ?case by simp
next
  case (snoc u us)
  have "e \<in> set (fold put_job (us @ [u]) js)
        \<longleftrightarrow> e = u \<or> (e \<in> set (fold put_job us js) \<and> jobId e \<noteq> jobId u)"
    by (simp only: fold_put_snoc put_job_mem)
  with snoc show ?case by auto
qed




lemma job_upsert_id:
  "job_upsert jc cfg = Some u \<Longrightarrow> get_prop jc ''id'' = Some (JStr (jobId u)) \<and> userId u = CONFIG_SYNC_USER_ID"
  by (auto simp: job_upsert_def split: option.splits json.splits if_splits sum.splits)

lemma upserts_ids:
  "u \<in> set (upserts cjs cfg) \<Longrightarrow>
   Some (JStr (jobId u)) \<in> set (declared_ids cjs) \<and> userId u = CONFIG_SYNC_USER_ID"
  by (induction cjs) (auto simp: declared_ids_def split: option.splits dest: job_upsert_id)




lemma convert_id_only:
  assumes "get_prop adapter ''id'' = Some i" and "truthy i"
    and "get_prop adapter ''fields'' = None" and "get_prop adapter ''args'' = None"
    and "\<not> (truthy_opt (get_prop adapter ''type'') \<and> truthy_opt (get_prop adapter ''botToken'')
             \<and> truthy_opt (get_prop adapter ''chatId''))"
  shows "convertNotificationAdapter adapter = Some (JObj [(''id'', i), (''fields'', JObj [])])"
proof -
  from assms(1) obtain kvs where "adapter = JObj kvs"
    by (cases adapter) simp_all
  then have "truthy adapter" by simp
  with assms show ?thesis
    unfolding convertNotificationAdapter_def by auto
qed

lemma filter_Boolean_mem:
  "Some v \<in> set xs \<Longrightarrow> truthy v \<Longrightarrow> v \<in> set (filter_Boolean xs)"
  by (induction xs rule: filter_Boolean.induct) auto

lemma sync_jobs_foreign:
  assumes "distinct (map jobId js)" and "j \<in> set js" and "userId j \<noteq> CONFIG_SYNC_USER_ID"
  shows "jobId j \<notin> stale_ids cjs js"
proof
  assume "jobId j \<in> stale_ids cjs js"
  then obtain k where k: "k \<in> set js" "userId k = CONFIG_SYNC_USER_ID" "jobId k = jobId j"
    by (auto simp: stale_ids_def)
  from assms(1) k(1,3) assms(2) have "k = j"
    by (meson distinct_map inj_on_def)
  with k(2) assms(3) show False by simp
qed

lemmas sync_eval_defs =
  syncConfigJobsToDatabase_def sync_try_def ensureConfigSyncUser_def getUser_def upsertUser_def
  logged_def getJobs_def syncJobToDatabase_def job_adapters_def job_data_def upsertJob_def
  put_job_def removeJob_def convertNotificationAdapter_def CONFIG_SYNC_USER_ID_def
  replace_in_string_def replaceAll_def startsWith_def declared_ids_def

lemma removal_logged [simp]:
  "filter is_removal (sync_log (logged ev st))
     = filter is_removal (sync_log st) @ (if is_removal ev then [ev] else [])"
  by (simp add: logged_def)

lemma removal_ensure [simp]:
  "filter is_removal (sync_log (ensureConfigSyncUser t st)) = filter is_removal (sync_log st)"
  by (simp add: ensureConfigSyncUser_def split: option.splits)
















section \<open>Properties of the planner and of the execution gate\<close>

lemma plan_bindings_eq:
  "JNull \<notin> set provs \<Longrightarrow>
   plan_bindings pm job provs tasks w =
     (Inr (tasks @ concat (map (binding_tasks pm job) provs)),
      w\<lparr>trace := trace w @ concat (map (binding_warnings pm job) provs)\<rparr>)"
proof (induction provs arbitrary: tasks w)
  case Nil
  then show ?case by simp
next
  case (Cons prov rest)
  then show ?case
    by (cases "map_get pm (get_prop prov ''id'')")
       (auto simp: binding_tasks_def binding_warnings_def traced_def)
qed

lemma plan_jobs_eq:
  "\<forall>job \<in> set js. schedulable job \<and> JNull \<notin> set (bindings job) \<Longrightarrow>
   plan_jobs pm js tasks w =
     (Inr (tasks @ concat (map (\<lambda>job. concat (map (binding_tasks pm job) (bindings job))) js)),
      w\<lparr>trace := trace w @ concat (map (\<lambda>job. concat (map (binding_warnings pm job) (bindings job))) js)\<rparr>)"
proof (induction js arbitrary: tasks w)
  case Nil
  then show ?case by simp
next
  case (Cons job rest)
  from Cons.prems obtain provs where p: "provider job = JArr provs" and nn: "JNull \<notin> set provs"
    by (cases "provider job") (auto simp: schedulable_def bindings_def)
  have r: "\<forall>job \<in> set rest. schedulable job \<and> JNull \<notin> set (bindings job)"
    using Cons.prems by simp
  show ?case
    using p plan_bindings_eq[OF nn, of pm job tasks w] Cons.IH[OF r]
    by (simp add: bindings_def)
qed

lemma plan_bindings_quiet:
  "filter is_call (trace (snd (plan_bindings pm job provs tasks w))) = filter is_call (trace w)
   \<and> provider_config (snd (plan_bindings pm job provs tasks w)) = provider_config w
   \<and> executionInFlight (snd (plan_bindings pm job provs tasks w)) = executionInFlight w
   \<and> lastRun (snd (plan_bindings pm job provs tasks w)) = lastRun w"
proof (induction provs arbitrary: tasks w)
  case Nil
  then show ?case by simp
next
  case (Cons prov rest)
  show ?case
  proof (cases "map_get pm (get_prop prov ''id'')")
    case None
    then show ?thesis
      using Cons.IH[of tasks "traced (WarnProviderNotAvailable (get_prop prov ''id'') (jobId job)) w"]
      by (simp add: traced_def)
  next
    case (Some m)
    then show ?thesis
      using Cons.IH[of "tasks @ [Task m prov job]" w] by simp
  qed
qed

lemma plan_jobs_quiet:
  "filter is_call (trace (snd (plan_jobs pm js tasks w))) = filter is_call (trace w)
   \<and> provider_config (snd (plan_jobs pm js tasks w)) = provider_config w
   \<and> executionInFlight (snd (plan_jobs pm js tasks w)) = executionInFlight w
   \<and> lastRun (snd (plan_jobs pm js tasks w)) = lastRun w"
proof (induction js arbitrary: tasks w)
  case Nil
  then show ?case by simp
next
  case (Cons job rest)
  show ?case
  proof (cases "provider job")
    case (JArr provs)
    obtain r w' where pb: "plan_bindings pm job provs tasks w = (r, w')"
      by fastforce
    with plan_bindings_quiet[of pm job provs tasks w]
    have q: "filter is_call (trace w') = filter is_call (trace w)"
        "provider_config w' = provider_config w"
        "executionInFlight w' = executionInFlight w" "lastRun w' = lastRun w"
      by simp_all
    show ?thesis
    proof (cases r)
      case (Inl e)
      with JArr pb q show ?thesis by simp
    next
      case (Inr tasks')
      with JArr pb q Cons.IH[of tasks' w'] show ?thesis by simp
    qed
  qed simp_all
qed

lemma execute_try_flag:
  "executionInFlight (snd (execute_try demoMode working now pm c js w)) = executionInFlight w"
proof -
  have "executionInFlight
          (snd (plan_jobs pm (filter schedulable (getJobs js)) [] (w\<lparr>lastRun := Some now\<rparr>)))
        = executionInFlight w"
    using plan_jobs_quiet[of pm "filter schedulable (getJobs js)" "[]" "w\<lparr>lastRun := Some now\<rparr>"]
    by simp
  then show ?thesis
    by (auto simp: execute_try_def traced_def split: prod.splits sum.splits)
qed

lemma execute_start_running:
  "executionInFlight w \<Longrightarrow>
   execute_start demoMode working now pm c js w = (Returned, traced DebugPreviousExecutionStillRunning w)"
  by (simp add: execute_start_def)

lemma trigger_all_running:
  "executionInFlight w \<Longrightarrow>
   trigger_all calls pm c w
     = w\<lparr>trace := trace w @ replicate (length calls) DebugPreviousExecutionStillRunning\<rparr>"
proof (induction calls arbitrary: w)
  case Nil
  then show ?case by simp
next
  case (Cons call rest)
  obtain demoMode working now js where call: "call = (demoMode, working, now, js)"
    by (cases call) auto
  let ?w = "traced DebugPreviousExecutionStillRunning w"
  have "executionInFlight ?w" using Cons.prems by (simp add: traced_def)
  from Cons.IH[OF this] Cons.prems show ?case
    by (simp add: call triggerExecution_def execute_start_running traced_def replicate_append_same)
qed

lemma execute_start_idle:
  assumes "\<not> executionInFlight w"
  shows "case fst (execute_start demoMode working now pm c js w) of
           Awaiting tasks \<Rightarrow> executionInFlight (snd (execute_start demoMode working now pm c js w))
                              \<and> tasks \<noteq> []
         | Returned \<Rightarrow> \<not> executionInFlight (snd (execute_start demoMode working now pm c js w))
         | Threw e \<Rightarrow> \<not> executionInFlight (snd (execute_start demoMode working now pm c js w))"
proof -
  let ?w = "w\<lparr>executionInFlight := True\<rparr>"
  obtain r w' where t: "execute_try demoMode working now pm c js ?w = (r, w')"
    by fastforce
  with execute_try_flag[of demoMode working now pm c js ?w]
  have f: "executionInFlight w'" by simp
  have ne: "tasks \<noteq> []" if "r = Awaiting tasks" for tasks
    using t that by (auto simp: execute_try_def split: if_splits prod.splits sum.splits)
  show ?thesis
    using assms t f ne by (cases r) (simp_all add: execute_start_def)
qed

lemma run_task_flag:
  "executionInFlight (run_task pipeline t w) = executionInFlight w"
  by (cases t) (simp add: traced_def Let_def split: sum.splits)



lemma execute_try_planned:
  assumes "\<forall>job \<in> set js. schedulable job \<longrightarrow> JNull \<notin> set (bindings job)"
  shows "execute_try False True now pm c js w =
     (if planned_tasks pm js = []
      then (Returned,
            w\<lparr>lastRun := Some now,
               trace := trace w @ planned_warnings pm js @ [DebugNoProviderExecutions]\<rparr>)
      else (Awaiting (planned_tasks pm js),
            w\<lparr>lastRun := Some now,
               trace := trace w @ planned_warnings pm js
                          @ [DebugQueued (length (planned_tasks pm js)) c]\<rparr>))"
proof -
  have "\<forall>job \<in> set (filter schedulable (getJobs js)). schedulable job \<and> JNull \<notin> set (bindings job)"
    using assms by (simp add: getJobs_def)
  from plan_jobs_eq[OF this, of pm "[]" "w\<lparr>lastRun := Some now\<rparr>"]
  have "plan_jobs pm (filter schedulable (getJobs js)) [] (w\<lparr>lastRun := Some now\<rparr>)
          = (Inr (planned_tasks pm js),
             w\<lparr>lastRun := Some now, trace := trace w @ planned_warnings pm js\<rparr>)"
    by (simp add: planned_tasks_def planned_warnings_def getJobs_def)
  then show ?thesis
    by (simp add: execute_try_def traced_def)
qed


lemma execute_start_planned:
  assumes "\<not> executionInFlight w"
    and "\<forall>job \<in> set js. schedulable job \<longrightarrow> JNull \<notin> set (bindings job)"
  shows "execute_start False True now pm c js w =
     (if planned_tasks pm js = []
      then (Returned,
            w\<lparr>executionInFlight := False, lastRun := Some now,
               trace := trace w @ planned_warnings pm js @ [DebugNoProviderExecutions]\<rparr>)
      else (Awaiting (planned_tasks pm js),
            w\<lparr>executionInFlight := True, lastRun := Some now,
               trace := trace w @ planned_warnings pm js
                          @ [DebugQueued (length (planned_tasks pm js)) c]\<rparr>))"
  using assms(1) execute_try_planned[OF assms(2), of now pm c "w\<lparr>executionInFlight := True\<rparr>"]
  by (simp add: execute_start_def)


lemma execute_try_quiet:
  "filter is_call (trace (snd (execute_try demoMode working now pm c js w))) = filter is_call (trace w)
   \<and> provider_config (snd (execute_try demoMode working now pm c js w)) = provider_config w"
proof -
  obtain r w' where p: "plan_jobs pm (filter schedulable (getJobs js)) [] (w\<lparr>lastRun := Some now\<rparr>) = (r, w')"
    by fastforce
  with plan_jobs_quiet[of pm "filter schedulable (getJobs js)" "[]" "w\<lparr>lastRun := Some now\<rparr>"]
  have "filter is_call (trace w') = filter is_call (trace w)"
    and "provider_config w' = provider_config w"
    by simp_all
  with p show ?thesis
    by (cases r) (simp_all add: execute_try_def traced_def)
qed

lemma execute_start_quiet:
  "filter is_call (trace (snd (execute_start demoMode working now pm c js w))) = filter is_call (trace w)
   \<and> provider_config (snd (execute_start demoMode working now pm c js w)) = provider_config w"
proof (cases "executionInFlight w")
  case True
  then show ?thesis by (simp add: execute_start_def traced_def)
next
  case False
  obtain r w' where t: "execute_try demoMode working now pm c js (w\<lparr>executionInFlight := True\<rparr>) = (r, w')"
    by fastforce
  with execute_try_quiet[of demoMode working now pm c js "w\<lparr>executionInFlight := True\<rparr>"]
  have "filter is_call (trace w') = filter is_call (trace w)"
    and "provider_config w' = provider_config w"
    by simp_all
  with False t show ?thesis
    by (cases r) (simp_all add: execute_start_def)
qed

lemma planned_tasks_mem:
  "Task m prov job \<in> set (planned_tasks pm js)
     \<longleftrightarrow> job \<in> set js \<and> schedulable job \<and> prov \<in> set (bindings job)
         \<and> map_get pm (get_prop prov ''id'') = Some m"
  by (auto simp: planned_tasks_def binding_tasks_def split: option.splits)


section \<open>Properties of the bounded runner\<close>

lemma maxParallel_pos: "1 \<le> maxParallel limit"
  by (simp add: maxParallel_def)

lemma maxParallel_id: "1 \<le> L \<Longrightarrow> int (maxParallel L) = L"
  by (simp add: maxParallel_def)

lemma runner_inv_init: "1 \<le> mp \<Longrightarrow> runner_inv n mp (runner_init n)"
  by (auto simp: runner_inv_def runner_init_def)

lemma distinct_subset_length:
  "distinct xs \<Longrightarrow> distinct ys \<Longrightarrow> set xs \<subseteq> set ys \<Longrightarrow> i \<in> set ys \<Longrightarrow> i \<notin> set xs \<Longrightarrow>
   length xs < length ys"
proof -
  assume d: "distinct xs" "distinct ys" and s: "set xs \<subseteq> set ys" and i: "i \<in> set ys" "i \<notin> set xs"
  have "set xs \<subset> set ys" using s i by blast
  then have "card (set xs) < card (set ys)" by (simp add: psubset_card_mono)
  with d show ?thesis by (simp add: distinct_card)
qed

lemma runner_inv_submit:
  assumes "pc r = Submitting" and "todo r = i # rest" and "runner_inv n mp r"
  shows "runner_inv n mp
       (r\<lparr>todo := rest, executing := set_add i (executing r), pending := pending r @ [i],
          pc := (if mp \<le> length (set_add i (executing r))
                 then AwaitingRace (set_add i (executing r)) else Submitting)\<rparr>)"
proof -
  from assms have ni: "i \<notin> set (executing r)" and nr: "i \<notin> set rest"
    and np: "i \<notin> set (pending r)" and ns: "i \<notin> fst ` set (settled r)"
    and len: "length (executing r) < mp"
    by (auto simp: runner_inv_def)
  have sa: "set_add i (executing r) = executing r @ [i]"
    using ni by (simp add: set_add_def)
  have u: "set rest \<union> set (pending r @ [i]) \<union> fst ` set (settled r) = {0..<n}"
    using assms by (auto simp: runner_inv_def)
  show ?thesis
    using assms ni nr np ns len u
    by (auto simp: runner_inv_def sa)
qed

lemma runner_inv_settle:
  assumes "i \<in> set (pending r)" and "runner_inv n mp r"
  shows "runner_inv n mp (r\<lparr>pending := removeAll i (pending r), settled := settled r @ [(i, out)]\<rparr>)"
proof -
  have u: "set (todo r) \<union> set (removeAll i (pending r)) \<union> fst ` set (settled r @ [(i, out)]) = {0..<n}"
    using assms by (auto simp: runner_inv_def)
  have "pc r \<noteq> RunnerReturned"
    using assms by (auto simp: runner_inv_def)
  then show ?thesis
    using assms u
    by (auto simp: runner_inv_def distinct_removeAll split: runner_pc.splits)
qed

lemma runner_inv_finally:
  assumes "(i, out) \<in> set (settled r)" and "i \<in> set (executing r)" and "runner_inv n mp r"
  shows "runner_inv n mp (r\<lparr>executing := removeAll i (executing r)\<rparr>)"
proof -
  have "i \<in> fst ` set (settled r)" using assms(1) by force
  then have np: "i \<notin> set (pending r)"
    using assms(3) by (auto simp: runner_inv_def)
  have l: "length (removeAll i (executing r)) < length (executing r)"
    using assms(2) by (simp add: length_removeAll_less)
  show ?thesis
    using assms np l
    by (auto simp: runner_inv_def distinct_removeAll split: runner_pc.splits)
qed

lemma runner_inv_race:
  assumes "pc r = AwaitingRace snap" and "i \<in> set snap" and "i \<notin> set (executing r)"
    and "runner_inv n mp r"
  shows "runner_inv n mp (r\<lparr>pc := after_await (waitForNext out) Submitting\<rparr>)"
proof -
  have w: "after_await (waitForNext out) Submitting = Submitting"
    by (cases out) (simp_all add: after_await_def waitForNext_def)
  from assms have "distinct (executing r)" "distinct snap" "set (executing r) \<subseteq> set snap"
      "length snap \<le> mp"
    by (auto simp: runner_inv_def)
  with assms(2,3) have "length (executing r) < mp"
    using distinct_subset_length[of "executing r" snap i] by simp
  then show ?thesis
    using assms(4) by (auto simp: runner_inv_def w)
qed

lemma runner_inv_loop_end:
  assumes "pc r = Submitting" and "todo r = []" and "runner_inv n mp r"
  shows "runner_inv n mp (r\<lparr>pc := AwaitingAllSettled (executing r)\<rparr>)"
  using assms by (simp add: runner_inv_def)

lemma runner_inv_all_settled:
  assumes "pc r = AwaitingAllSettled snap" and "set snap \<subseteq> fst ` set (settled r)"
    and "runner_inv n mp r"
  shows "runner_inv n mp (r\<lparr>pc := after_await (allSettled outs) RunnerReturned\<rparr>)"
proof -
  have t: "todo r = []" and e: "set (executing r) \<subseteq> set snap"
    using assms(1,3) by (simp_all add: runner_inv_def)
  have pe: "set (pending r) \<subseteq> set (executing r)"
    and d: "fst ` set (settled r) \<inter> set (pending r) = {}"
    using assms(3) by (simp_all add: runner_inv_def)
  have "set (pending r) \<subseteq> fst ` set (settled r)"
    using pe e assms(2) by (meson subset_trans)
  then have "fst ` set (settled r) \<inter> set (pending r) = set (pending r)"
    by (rule inf.absorb2)
  with d have p: "pending r = []" by simp
  have a: "after_await (allSettled outs) RunnerReturned = RunnerReturned"
    by (simp add: after_await_def allSettled_def)
  from t p have c: "todo r = [] \<and> pending r = []" by simp
  show ?thesis
    unfolding a using assms(3) c unfolding runner_inv_def by simp
qed

lemma runner_inv_step:
  assumes "runner_step mp r r'" and "runner_inv n mp r"
  shows "runner_inv n mp r'"
  using assms(1)
proof cases
  case (submit i rest)
  with assms(2) show ?thesis by (simp add: runner_inv_submit)
next
  case (settle i out)
  with assms(2) show ?thesis by (simp add: runner_inv_settle)
next
  case (finally_cb i out)
  with assms(2) show ?thesis using runner_inv_finally[of i out r n mp] by simp
next
  case (race_won snap i out)
  with assms(2) show ?thesis using runner_inv_race[of r snap i n mp out] by simp
next
  case loop_end
  with assms(2) show ?thesis by (simp add: runner_inv_loop_end)
next
  case (all_settled snap)
  with assms(2) show ?thesis
    using runner_inv_all_settled[of r snap n mp] by simp
qed

lemma runner_reachable_inv:
  "runner_reachable n limit r \<Longrightarrow> runner_inv n (maxParallel limit) r"
proof (induction rule: runner_reachable.induct)
  case (start n limit)
  show ?case using maxParallel_pos by (rule runner_inv_init)
next
  case (step n limit r r')
  from step.hyps(2) step.IH show ?case by (rule runner_inv_step)
qed

lemma runner_inv_settled_ids:
  assumes "runner_inv n mp r" and "pending r = []" and "i < n" and "i \<notin> set (todo r)"
  shows "\<exists>out. (i, out) \<in> set (settled r)"
proof -
  from assms(1) have "set (todo r) \<union> set (pending r) \<union> fst ` set (settled r) = {0..<n}"
    by (simp add: runner_inv_def)
  with assms(2-4) have "i \<in> fst ` set (settled r)" by auto
  then show ?thesis by force
qed

lemma drain_pending:
  "runner_inv n mp r \<Longrightarrow>
   \<exists>r'. (runner_step mp)\<^sup>*\<^sup>* r r' \<and> runner_inv n mp r' \<and> pending r' = []
      \<and> todo r' = todo r \<and> pc r' = pc r \<and> executing r' = executing r"
proof (induction "length (pending r)" arbitrary: r)
  case 0
  then show ?case by auto
next
  case (Suc k)
  then obtain i ps where p: "pending r = i # ps"
    by (cases "pending r") auto
  let ?r1 = "r\<lparr>pending := removeAll i (pending r), settled := settled r @ [(i, Fulfilled)]\<rparr>"
  have st: "runner_step mp r ?r1"
    using p by (intro runner_step.settle) simp
  then have inv1: "runner_inv n mp ?r1"
    using Suc.prems by (rule runner_inv_step)
  have "distinct (pending r)" using Suc.prems by (simp add: runner_inv_def)
  with p have "removeAll i (pending r) = ps" by simp
  with p Suc.hyps(2) have "k = length (pending ?r1)" by simp
  from Suc.hyps(1)[OF this inv1] obtain r' where
    r': "(runner_step mp)\<^sup>*\<^sup>* ?r1 r'" "runner_inv n mp r'" "pending r' = []"
      "todo r' = todo ?r1" "pc r' = pc ?r1" "executing r' = executing ?r1"
    by blast
  from st r'(1) have "(runner_step mp)\<^sup>*\<^sup>* r r'"
    by (rule converse_rtranclp_into_rtranclp)
  with r' show ?case by auto
qed

lemma drain_executing:
  "runner_inv n mp r \<Longrightarrow> pending r = [] \<Longrightarrow>
   \<exists>r'. (runner_step mp)\<^sup>*\<^sup>* r r' \<and> runner_inv n mp r' \<and> pending r' = [] \<and> executing r' = []
      \<and> todo r' = todo r \<and> pc r' = pc r"
proof (induction "length (executing r)" arbitrary: r)
  case 0
  then show ?case by auto
next
  case (Suc k)
  then obtain i es where e: "executing r = i # es"
    by (cases "executing r") auto
  from Suc.prems(1) e have "i < n" and "i \<notin> set (todo r)"
    by (auto simp: runner_inv_def)
  with Suc.prems obtain out where out: "(i, out) \<in> set (settled r)"
    using runner_inv_settled_ids by blast
  let ?r1 = "r\<lparr>executing := removeAll i (executing r)\<rparr>"
  have st: "runner_step mp r ?r1"
    using out e by (intro runner_step.finally_cb[of i out]) simp_all
  then have inv1: "runner_inv n mp ?r1"
    using Suc.prems(1) by (rule runner_inv_step)
  have "distinct (executing r)" using Suc.prems(1) by (simp add: runner_inv_def)
  with e have "removeAll i (executing r) = es" by simp
  with e Suc.hyps(2) have "k = length (executing ?r1)" by simp
  moreover have "pending ?r1 = []" using Suc.prems(2) by simp
  ultimately obtain r' where
    r': "(runner_step mp)\<^sup>*\<^sup>* ?r1 r'" "runner_inv n mp r'" "pending r' = []" "executing r' = []"
      "todo r' = todo ?r1" "pc r' = pc ?r1"
    using Suc.hyps(1)[of ?r1] inv1 by blast
  from st r'(1) have "(runner_step mp)\<^sup>*\<^sup>* r r'"
    by (rule converse_rtranclp_into_rtranclp)
  with r' show ?case by auto
qed

lemma quiesce:
  assumes "runner_inv n mp r"
  shows "\<exists>r'. (runner_step mp)\<^sup>*\<^sup>* r r' \<and> runner_inv n mp r' \<and> pending r' = [] \<and> executing r' = []
      \<and> todo r' = todo r \<and> pc r' = pc r"
proof -
  from drain_pending[OF assms] obtain r1 where
    r1: "(runner_step mp)\<^sup>*\<^sup>* r r1" "runner_inv n mp r1" "pending r1 = []"
      "todo r1 = todo r" "pc r1 = pc r"
    by blast
  from drain_executing[OF r1(2,3)] obtain r2 where
    r2: "(runner_step mp)\<^sup>*\<^sup>* r1 r2" "runner_inv n mp r2" "pending r2 = []" "executing r2 = []"
      "todo r2 = todo r1" "pc r2 = pc r1"
    by blast
  from r1(1) r2(1) have "(runner_step mp)\<^sup>*\<^sup>* r r2" by (rule rtranclp_trans)
  with r1 r2 show ?thesis by auto
qed

lemma finish_all_settled:
  assumes "runner_inv n mp r" and "pc r = AwaitingAllSettled snap"
  shows "\<exists>r'. (runner_step mp)\<^sup>*\<^sup>* r r' \<and> pc r' = RunnerReturned"
proof -
  from quiesce[OF assms(1)] obtain q where
    q: "(runner_step mp)\<^sup>*\<^sup>* r q" "runner_inv n mp q" "pending q = []" "pc q = pc r"
    by blast
  from q(2,4) assms(2) have t: "todo q = []" and s: "set snap \<subseteq> {0..<n}"
    by (simp_all add: runner_inv_def)
  from q(2) have "set (todo q) \<union> set (pending q) \<union> fst ` set (settled q) = {0..<n}"
    by (simp add: runner_inv_def)
  with t q(3) s have "set snap \<subseteq> fst ` set (settled q)" by simp
  with q(4) assms(2) have "runner_step mp q
       (q\<lparr>pc := after_await (allSettled (map snd (filter (\<lambda>p. fst p \<in> set snap) (settled q))))
                   RunnerReturned\<rparr>)"
    by (intro runner_step.all_settled) simp_all
  with q(1) have "(runner_step mp)\<^sup>*\<^sup>* r
       (q\<lparr>pc := after_await (allSettled (map snd (filter (\<lambda>p. fst p \<in> set snap) (settled q))))
                   RunnerReturned\<rparr>)"
    by (rule rtranclp.rtrancl_into_rtrancl)
  moreover have "pc (q\<lparr>pc := after_await (allSettled (map snd (filter (\<lambda>p. fst p \<in> set snap) (settled q))))
                   RunnerReturned\<rparr>) = RunnerReturned"
    by (simp add: after_await_def allSettled_def)
  ultimately show ?thesis by blast
qed

lemma resume_from_race:
  assumes "runner_inv n mp r" and "pc r = AwaitingRace snap"
  shows "\<exists>r'. (runner_step mp)\<^sup>*\<^sup>* r r' \<and> runner_inv n mp r' \<and> pc r' = Submitting
            \<and> todo r' = todo r"
proof -
  from quiesce[OF assms(1)] obtain q where
    q: "(runner_step mp)\<^sup>*\<^sup>* r q" "runner_inv n mp q" "pending q = []" "executing q = []"
      "todo q = todo r" "pc q = pc r"
    by blast
  from q(2,6) assms(2) have "snap \<noteq> []" and s: "set snap \<subseteq> {0..<n}"
    and d: "set snap \<inter> set (todo q) = {}"
    by (simp_all add: runner_inv_def)
  then obtain i where i: "i \<in> set snap" by (cases snap) auto
  with s d have "i < n" and "i \<notin> set (todo q)" by auto
  with q(2,3) obtain out where out: "(i, out) \<in> set (settled q)"
    using runner_inv_settled_ids by blast
  let ?q' = "q\<lparr>pc := after_await (waitForNext out) Submitting\<rparr>"
  have st: "runner_step mp q ?q'"
    using q(4,6) assms(2) i out by (intro runner_step.race_won[of q snap i out]) simp_all
  then have "runner_inv n mp ?q'" using q(2) by (rule runner_inv_step)
  moreover from q(1) st have "(runner_step mp)\<^sup>*\<^sup>* r ?q'"
    by (rule rtranclp.rtrancl_into_rtrancl)
  moreover have "pc ?q' = Submitting"
    by (cases out) (simp_all add: after_await_def waitForNext_def)
  moreover have "todo ?q' = todo r" using q(5) by simp
  ultimately show ?thesis by blast
qed

lemma finish_from_submitting:
  "runner_inv n mp r \<Longrightarrow> pc r = Submitting \<Longrightarrow>
   \<exists>r'. (runner_step mp)\<^sup>*\<^sup>* r r' \<and> pc r' = RunnerReturned"
proof (induction "length (todo r)" arbitrary: r)
  case 0
  let ?a = "r\<lparr>pc := AwaitingAllSettled (executing r)\<rparr>"
  have st: "runner_step mp r ?a"
    using 0 by (intro runner_step.loop_end) simp_all
  then have "runner_inv n mp ?a" using "0.prems"(1) by (rule runner_inv_step)
  from finish_all_settled[OF this, of "executing r"] obtain r' where
    "(runner_step mp)\<^sup>*\<^sup>* ?a r'" "pc r' = RunnerReturned"
    by auto
  with st show ?case
    by (meson converse_rtranclp_into_rtranclp)
next
  case (Suc k)
  then obtain i rest where t: "todo r = i # rest"
    by (cases "todo r") auto
  let ?r1 = "r\<lparr>todo := rest, executing := set_add i (executing r), pending := pending r @ [i],
          pc := (if mp \<le> length (set_add i (executing r))
                 then AwaitingRace (set_add i (executing r)) else Submitting)\<rparr>"
  have st: "runner_step mp r ?r1"
    using Suc.prems(2) t by (rule runner_step.submit)
  then have inv1: "runner_inv n mp ?r1" using Suc.prems(1) by (rule runner_inv_step)
  have len: "k = length (todo ?r1)" using t Suc.hyps(2) by simp
  have "\<exists>r2. (runner_step mp)\<^sup>*\<^sup>* ?r1 r2 \<and> runner_inv n mp r2 \<and> pc r2 = Submitting
            \<and> todo r2 = todo ?r1"
  proof (cases "mp \<le> length (set_add i (executing r))")
    case True
    then have "pc ?r1 = AwaitingRace (set_add i (executing r))" by simp
    with inv1 show ?thesis by (rule resume_from_race)
  next
    case False
    then have "pc ?r1 = Submitting" by simp
    with inv1 show ?thesis by blast
  qed
  then obtain r2 where r2: "(runner_step mp)\<^sup>*\<^sup>* ?r1 r2" "runner_inv n mp r2" "pc r2 = Submitting"
      "todo r2 = todo ?r1"
    by blast
  from len r2(4) have "k = length (todo r2)" by simp
  from Suc.hyps(1)[OF this r2(2,3)] obtain r' where
    r': "(runner_step mp)\<^sup>*\<^sup>* r2 r'" "pc r' = RunnerReturned"
    by blast
  from st r2(1) have "(runner_step mp)\<^sup>*\<^sup>* r r2"
    by (rule converse_rtranclp_into_rtranclp)
  with r'(1) have "(runner_step mp)\<^sup>*\<^sup>* r r'" by (rule rtranclp_trans[rotated])
  with r'(2) show ?case by blast
qed

lemma runner_can_return:
  assumes "runner_inv n mp r"
  shows "\<exists>r'. (runner_step mp)\<^sup>*\<^sup>* r r' \<and> pc r' = RunnerReturned"
proof (cases "pc r")
  case Submitting
  with assms show ?thesis by (rule finish_from_submitting)
next
  case (AwaitingRace snap)
  from resume_from_race[OF assms this] obtain r1 where
    r1: "(runner_step mp)\<^sup>*\<^sup>* r r1" "runner_inv n mp r1" "pc r1 = Submitting"
    by blast
  from finish_from_submitting[OF r1(2,3)] obtain r' where
    "(runner_step mp)\<^sup>*\<^sup>* r1 r'" "pc r' = RunnerReturned"
    by blast
  with r1(1) show ?thesis by (meson rtranclp_trans)
next
  case (AwaitingAllSettled snap)
  with assms show ?thesis by (rule finish_all_settled)
next
  case RunnerReturned
  then show ?thesis by blast
next
  case RunnerRejected
  with assms show ?thesis by (simp add: runner_inv_def)
qed

lemma maxParallel_one: "maxParallel 1 = 1"
  by (simp add: maxParallel_def)

lemma runner_example_run:
  "runner_reachable 2 1
     \<lparr>todo = [1], executing = [0], pending = [0], settled = [], pc = AwaitingRace [0]\<rparr>
   \<and> runner_reachable 2 1
     \<lparr>todo = [], executing = [], pending = [], settled = [(0, Rejected), (1, Fulfilled)],
      pc = RunnerReturned\<rparr>"
proof -
  let ?r0 = "\<lparr>todo = [0, 1], executing = [], pending = [], settled = [], pc = Submitting\<rparr>"
  let ?r1 = "\<lparr>todo = [1], executing = [0], pending = [0], settled = [], pc = AwaitingRace [0]\<rparr>"
  let ?r2 = "\<lparr>todo = [1], executing = [0], pending = [], settled = [(0, Rejected)],
              pc = AwaitingRace [0]\<rparr>"
  let ?r3 = "\<lparr>todo = [1], executing = [], pending = [], settled = [(0, Rejected)],
              pc = AwaitingRace [0]\<rparr>"
  let ?r4 = "\<lparr>todo = [1], executing = [], pending = [], settled = [(0, Rejected)],
              pc = Submitting\<rparr>"
  let ?r5 = "\<lparr>todo = [], executing = [1], pending = [1], settled = [(0, Rejected)],
              pc = AwaitingRace [1]\<rparr>"
  let ?r6 = "\<lparr>todo = [], executing = [1], pending = [], settled = [(0, Rejected), (1, Fulfilled)],
              pc = AwaitingRace [1]\<rparr>"
  let ?r7 = "\<lparr>todo = [], executing = [], pending = [], settled = [(0, Rejected), (1, Fulfilled)],
              pc = AwaitingRace [1]\<rparr>"
  let ?r8 = "\<lparr>todo = [], executing = [], pending = [], settled = [(0, Rejected), (1, Fulfilled)],
              pc = Submitting\<rparr>"
  let ?r9 = "\<lparr>todo = [], executing = [], pending = [], settled = [(0, Rejected), (1, Fulfilled)],
              pc = AwaitingAllSettled []\<rparr>"
  let ?r10 = "\<lparr>todo = [], executing = [], pending = [], settled = [(0, Rejected), (1, Fulfilled)],
              pc = RunnerReturned\<rparr>"
  have "runner_init 2 = ?r0"
    by (simp add: runner_init_def upt_rec)
  then have r0: "runner_reachable 2 1 ?r0"
    using runner_reachable.start[of 2 1] by simp
  have "runner_step 1 ?r0 ?r1"
    using runner_step.submit[of ?r0 0 "[1]" 1] by (simp add: set_add_def)
  with r0 have r1: "runner_reachable 2 1 ?r1"
    using runner_reachable.step[of 2 1 ?r0 ?r1] by (simp add: maxParallel_one)
  have "runner_step 1 ?r1 ?r2"
    using runner_step.settle[of 0 ?r1 1 Rejected] by simp
  with r1 have r2: "runner_reachable 2 1 ?r2"
    using runner_reachable.step[of 2 1 ?r1 ?r2] by (simp add: maxParallel_one)
  have "runner_step 1 ?r2 ?r3"
    using runner_step.finally_cb[of 0 Rejected ?r2 1] by simp
  with r2 have r3: "runner_reachable 2 1 ?r3"
    using runner_reachable.step[of 2 1 ?r2 ?r3] by (simp add: maxParallel_one)
  have "runner_step 1 ?r3 ?r4"
    using runner_step.race_won[of ?r3 "[0]" 0 Rejected 1]
    by (simp add: after_await_def waitForNext_def)
  with r3 have r4: "runner_reachable 2 1 ?r4"
    using runner_reachable.step[of 2 1 ?r3 ?r4] by (simp add: maxParallel_one)
  have "runner_step 1 ?r4 ?r5"
    using runner_step.submit[of ?r4 1 "[]" 1] by (simp add: set_add_def)
  with r4 have r5: "runner_reachable 2 1 ?r5"
    using runner_reachable.step[of 2 1 ?r4 ?r5] by (simp add: maxParallel_one)
  have "runner_step 1 ?r5 ?r6"
    using runner_step.settle[of 1 ?r5 1 Fulfilled] by simp
  with r5 have r6: "runner_reachable 2 1 ?r6"
    using runner_reachable.step[of 2 1 ?r5 ?r6] by (simp add: maxParallel_one)
  have "runner_step 1 ?r6 ?r7"
    using runner_step.finally_cb[of 1 Fulfilled ?r6 1] by simp
  with r6 have r7: "runner_reachable 2 1 ?r7"
    using runner_reachable.step[of 2 1 ?r6 ?r7] by (simp add: maxParallel_one)
  have "runner_step 1 ?r7 ?r8"
    using runner_step.race_won[of ?r7 "[1]" 1 Fulfilled 1]
    by (simp add: after_await_def waitForNext_def)
  with r7 have r8: "runner_reachable 2 1 ?r8"
    using runner_reachable.step[of 2 1 ?r7 ?r8] by (simp add: maxParallel_one)
  have "runner_step 1 ?r8 ?r9"
    using runner_step.loop_end[of ?r8 1] by simp
  with r8 have r9: "runner_reachable 2 1 ?r9"
    using runner_reachable.step[of 2 1 ?r8 ?r9] by (simp add: maxParallel_one)
  have "runner_step 1 ?r9 ?r10"
    using runner_step.all_settled[of ?r9 "[]" 1] by (simp add: after_await_def allSettled_def)
  with r9 have r10: "runner_reachable 2 1 ?r10"
    using runner_reachable.step[of 2 1 ?r9 ?r10] by (simp add: maxParallel_one)
  from r1 r10 show ?thesis by simp
qed

section \<open>Claims about the reconciler\<close>

text \<open>
  Claim C1, as amended. A sync that passes its in-progress guard and reads a configuration
  whose job list (after the placeholders are resolved) is a non-empty array without
  \<^verbatim>\<open>null\<close> entries removes every job of the store that is owned by \<open>config_sync\<close> and
  whose identifier is not among the identifiers of that list: no job with that identifier
  is left in the store afterwards.
\<close>

theorem sync_removes_stale_owned_jobs:
  assumes "\<not> syncInProgress st"
    and "or_else (get_prop (replaceEnvPlaceholdersSimple e raw) ''jobs'') (JArr []) = JArr cjs"
    and "cjs \<noteq> []" and "JNull \<notin> set cjs"
    and "j \<in> set (jobs st)" and "userId j = CONFIG_SYNC_USER_ID"
    and "Some (JStr (jobId j)) \<notin> set (declared_ids cjs)"
  shows "jobId j \<notin> set (map jobId (jobs (syncConfigJobsToDatabase e t_user t_done (Inr raw) st)))"
proof -
  have "jobId j \<in> stale_ids cjs (jobs st)"
    using assms(5-7) unfolding stale_ids_def by blast
  then show ?thesis
    using assms(1-4) by (auto simp: sync_jobs_eq sync_jobs_def)
qed

text \<open>
  The store holds one job \<^verbatim>\<open>a\<close> of \<open>config_sync\<close>; the file declares only a job \<^verbatim>\<open>b\<close>. After
  the sync no job \<^verbatim>\<open>a\<close> is left.
\<close>

theorem sync_removes_stale_owned_jobs_witness:
  "''a'' \<notin> set (map jobId (jobs (syncConfigJobsToDatabase
      \<lparr>BOT_TOKEN = None, RAW_FEED_CHANNEL_ID = None\<rparr> 0 0
      (Inr (JObj [(''jobs'', JArr [JObj [(''id'', JStr ''b''),
                     (''notificationAdapter'', JArr [JObj [(''id'', JStr ''telegram'')]])]])]))
      \<lparr>jobs = [\<lparr>jobId = ''a'', name = JStr ''a'', enabled = True,
                 provider = JArr [JObj [(''id'', JStr ''p1'')]],
                 notificationAdapter = [JObj [(''id'', JStr ''telegram''), (''fields'', JObj [])]],
                 userId = ''config_sync'', shareWithUsers = JArr [], blacklist = JArr []\<rparr>],
       users = [], syncInProgress = False, lastSyncTime = None, sync_log = []\<rparr>)))"
  using sync_removes_stale_owned_jobs
    [of "\<lparr>jobs = [\<lparr>jobId = ''a'', name = JStr ''a'', enabled = True,
                 provider = JArr [JObj [(''id'', JStr ''p1'')]],
                 notificationAdapter = [JObj [(''id'', JStr ''telegram''), (''fields'', JObj [])]],
                 userId = ''config_sync'', shareWithUsers = JArr [], blacklist = JArr []\<rparr>],
       users = [], syncInProgress = False, lastSyncTime = None, sync_log = []\<rparr>"
        "\<lparr>BOT_TOKEN = None, RAW_FEED_CHANNEL_ID = None\<rparr>"
        "JObj [(''jobs'', JArr [JObj [(''id'', JStr ''b''),
                     (''notificationAdapter'', JArr [JObj [(''id'', JStr ''telegram'')]])]])]"
        "[JObj [(''id'', JStr ''b''),
                     (''notificationAdapter'', JArr [JObj [(''id'', JStr ''telegram'')]])]]"
        "\<lparr>jobId = ''a'', name = JStr ''a'', enabled = True,
                 provider = JArr [JObj [(''id'', JStr ''p1'')]],
                 notificationAdapter = [JObj [(''id'', JStr ''telegram''), (''fields'', JObj [])]],
                 userId = ''config_sync'', shareWithUsers = JArr [], blacklist = JArr []\<rparr>" 0 0]
  by (simp add: replace_in_string_def declared_ids_def CONFIG_SYNC_USER_ID_def)

text \<open>
  Claim C1 as it is written fails on its own scenario: the store holds exactly the job
  \<^verbatim>\<open>a\<close> of \<open>config_sync\<close>, \<^verbatim>\<open>a\<close> has been taken out of the file, whose job list is now empty,
  and the sync returns at \<^verbatim>\<open>configJobs.length === 0\<close> before it looks at the store: the job
  \<^verbatim>\<open>a\<close> is still there, still owned by \<open>config_sync\<close>.
\<close>

theorem sync_empty_list_keeps_owned_job:
  "map jobId (jobs (syncConfigJobsToDatabase
      \<lparr>BOT_TOKEN = None, RAW_FEED_CHANNEL_ID = None\<rparr> 0 0
      (Inr (JObj [(''jobs'', JArr [])]))
      \<lparr>jobs = [\<lparr>jobId = ''a'', name = JStr ''a'', enabled = True,
                 provider = JArr [JObj [(''id'', JStr ''p1'')]],
                 notificationAdapter = [JObj [(''id'', JStr ''telegram''), (''fields'', JObj [])]],
                 userId = ''config_sync'', shareWithUsers = JArr [], blacklist = JArr []\<rparr>],
       users = [], syncInProgress = False, lastSyncTime = None, sync_log = []\<rparr>)) = [''a'']
   \<and> map userId (jobs (syncConfigJobsToDatabase
      \<lparr>BOT_TOKEN = None, RAW_FEED_CHANNEL_ID = None\<rparr> 0 0
      (Inr (JObj [(''jobs'', JArr [])]))
      \<lparr>jobs = [\<lparr>jobId = ''a'', name = JStr ''a'', enabled = True,
                 provider = JArr [JObj [(''id'', JStr ''p1'')]],
                 notificationAdapter = [JObj [(''id'', JStr ''telegram''), (''fields'', JObj [])]],
                 userId = ''config_sync'', shareWithUsers = JArr [], blacklist = JArr []\<rparr>],
       users = [], syncInProgress = False, lastSyncTime = None, sync_log = []\<rparr>))
     = [CONFIG_SYNC_USER_ID]"
  by (simp add: sync_eval_defs)

text \<open>
  Claim C5. Whatever the sync reads, a job whose owner is not \<open>config_sync\<close> is never
  removed: its identifier is still in the store after the sync, and when the identifier is
  not declared in the file the job itself is still there, unchanged. The store's
  identifiers are unique (they are its key).
\<close>

theorem sync_keeps_foreign_jobs:
  assumes "distinct (map jobId (jobs st))" and "j \<in> set (jobs st)"
    and "userId j \<noteq> CONFIG_SYNC_USER_ID"
  shows "jobId j \<in> set (map jobId (jobs (syncConfigJobsToDatabase e t_user t_done rd st)))
    \<and> ((\<forall>raw cjs. rd = Inr raw
           \<and> or_else (get_prop (replaceEnvPlaceholdersSimple e raw) ''jobs'') (JArr []) = JArr cjs
           \<longrightarrow> Some (JStr (jobId j)) \<notin> set (declared_ids cjs))
        \<longrightarrow> j \<in> set (jobs (syncConfigJobsToDatabase e t_user t_done rd st)))"
proof -
  let ?final = "jobs (syncConfigJobsToDatabase e t_user t_done rd st)"
  have ns: "jobId j \<notin> stale_ids cjs (jobs st)" for cjs
    using assms by (rule sync_jobs_foreign)
  have idin: "jobId j \<in> set (map jobId (fold put_job us (jobs st)))" for us
    using assms(2) fold_put_ids[of us "jobs st"] by auto
  have a: "jobId j \<in> set (map jobId ?final)"
  proof (cases "?final = jobs st")
    case True
    with assms(2) show ?thesis by simp
  next
    case False
    then obtain raw cjs where run: "rd = Inr raw"
        "or_else (get_prop (replaceEnvPlaceholdersSimple e raw) ''jobs'') (JArr []) = JArr cjs"
        "?final = filter (\<lambda>j. jobId j \<notin> stale_ids cjs (jobs st))
                   (fold put_job (upserts cjs (replaceEnvPlaceholdersSimple e raw)) (jobs st))"
      by (auto simp: sync_jobs_eq sync_jobs_def split: if_splits sum.splits json.splits)
    from idin[of "upserts cjs (replaceEnvPlaceholdersSimple e raw)"]
    obtain k where "k \<in> set (fold put_job (upserts cjs (replaceEnvPlaceholdersSimple e raw)) (jobs st))"
        and "jobId k = jobId j"
      by auto
    with ns[of cjs] run(3) have "k \<in> set ?final" by simp
    then have "jobId k \<in> jobId ` set ?final" by (rule imageI)
    with \<open>jobId k = jobId j\<close> show ?thesis by simp
  qed
  have b: "j \<in> set ?final"
    if absent: "\<forall>raw cjs. rd = Inr raw
           \<and> or_else (get_prop (replaceEnvPlaceholdersSimple e raw) ''jobs'') (JArr []) = JArr cjs
           \<longrightarrow> Some (JStr (jobId j)) \<notin> set (declared_ids cjs)"
  proof (cases "?final = jobs st")
    case True
    with assms(2) show ?thesis by simp
  next
    case False
    then obtain raw cjs where run: "rd = Inr raw"
        "or_else (get_prop (replaceEnvPlaceholdersSimple e raw) ''jobs'') (JArr []) = JArr cjs"
        "?final = filter (\<lambda>j. jobId j \<notin> stale_ids cjs (jobs st))
                   (fold put_job (upserts cjs (replaceEnvPlaceholdersSimple e raw)) (jobs st))"
      by (auto simp: sync_jobs_eq sync_jobs_def split: if_splits sum.splits json.splits)
    from absent run(1,2) have "Some (JStr (jobId j)) \<notin> set (declared_ids cjs)" by blast
    then have "jobId j \<notin> jobId ` set (upserts cjs (replaceEnvPlaceholdersSimple e raw))"
      by (auto dest: upserts_ids)
    with assms(2) have "j \<in> set (fold put_job (upserts cjs (replaceEnvPlaceholdersSimple e raw)) (jobs st))"
      by (simp add: fold_put_mem)
    with ns[of cjs] run(3) show ?thesis by simp
  qed
  from a b show ?thesis by blast
qed

text \<open>
  The store holds a job \<^verbatim>\<open>x\<close> of the user \<^verbatim>\<open>admin\<close> and a job \<^verbatim>\<open>a\<close> of \<open>config_sync\<close>; the file
  declares only \<^verbatim>\<open>b\<close>. The sync removes \<^verbatim>\<open>a\<close> and leaves \<^verbatim>\<open>x\<close> as it was.
\<close>

theorem sync_keeps_foreign_jobs_witness:
  "\<lparr>jobId = ''x'', name = JStr ''x'', enabled = True, provider = JArr [],
     notificationAdapter = [], userId = ''admin'', shareWithUsers = JArr [], blacklist = JArr []\<rparr>
   \<in> set (jobs (syncConfigJobsToDatabase
      \<lparr>BOT_TOKEN = None, RAW_FEED_CHANNEL_ID = None\<rparr> 0 0
      (Inr (JObj [(''jobs'', JArr [JObj [(''id'', JStr ''b''),
                     (''notificationAdapter'', JArr [JObj [(''id'', JStr ''telegram'')]])]])]))
      \<lparr>jobs = [\<lparr>jobId = ''x'', name = JStr ''x'', enabled = True, provider = JArr [],
                 notificationAdapter = [], userId = ''admin'', shareWithUsers = JArr [],
                 blacklist = JArr []\<rparr>,
                \<lparr>jobId = ''a'', name = JStr ''a'', enabled = True, provider = JArr [],
                 notificationAdapter = [JObj [(''id'', JStr ''telegram''), (''fields'', JObj [])]],
                 userId = ''config_sync'', shareWithUsers = JArr [], blacklist = JArr []\<rparr>],
       users = [], syncInProgress = False, lastSyncTime = None, sync_log = []\<rparr>))"
  using sync_keeps_foreign_jobs
    [of "\<lparr>jobs = [\<lparr>jobId = ''x'', name = JStr ''x'', enabled = True, provider = JArr [],
                 notificationAdapter = [], userId = ''admin'', shareWithUsers = JArr [],
                 blacklist = JArr []\<rparr>,
                \<lparr>jobId = ''a'', name = JStr ''a'', enabled = True, provider = JArr [],
                 notificationAdapter = [JObj [(''id'', JStr ''telegram''), (''fields'', JObj [])]],
                 userId = ''config_sync'', shareWithUsers = JArr [], blacklist = JArr []\<rparr>],
       users = [], syncInProgress = False, lastSyncTime = None, sync_log = []\<rparr>"
        "\<lparr>jobId = ''x'', name = JStr ''x'', enabled = True, provider = JArr [],
          notificationAdapter = [], userId = ''admin'', shareWithUsers = JArr [],
          blacklist = JArr []\<rparr>"
        "\<lparr>BOT_TOKEN = None, RAW_FEED_CHANNEL_ID = None\<rparr>" 0 0
        "Inr (JObj [(''jobs'', JArr [JObj [(''id'', JStr ''b''),
                     (''notificationAdapter'', JArr [JObj [(''id'', JStr ''telegram'')]])]])])"]
  by (auto simp: replace_in_string_def declared_ids_def CONFIG_SYNC_USER_ID_def)




section \<open>Claims about adapters and placeholders\<close>

text \<open>
  Claim C8. The four examples of the normalisation: the global shape with \<^verbatim>\<open>type\<close>,
  \<^verbatim>\<open>botToken\<close> and \<^verbatim>\<open>chatId\<close>, the file's shape with \<^verbatim>\<open>args\<close>, the stored shape with \<^verbatim>\<open>fields\<close>
  (returned as it is), and the empty object, which is rejected with \<^verbatim>\<open>null\<close> and so dropped
  from the list of a job's adapters.
\<close>

theorem adapter_normalisation_examples:
  "convertNotificationAdapter
     (JObj [(''type'', JStr ''telegram''), (''botToken'', JStr ''T''), (''chatId'', JStr ''C'')])
     = Some (JObj [(''id'', JStr ''telegram''),
                   (''fields'', JObj [(''token'', JStr ''T''), (''chatId'', JStr ''C'')])])
   \<and> convertNotificationAdapter
     (JObj [(''id'', JStr ''telegram''),
            (''args'', JObj [(''token'', JStr ''T''), (''chatId'', JStr ''C'')])])
     = Some (JObj [(''id'', JStr ''telegram''),
                   (''fields'', JObj [(''token'', JStr ''T''), (''chatId'', JStr ''C'')])])
   \<and> convertNotificationAdapter
     (JObj [(''id'', JStr ''telegram''),
            (''fields'', JObj [(''token'', JStr ''T''), (''chatId'', JStr ''C'')])])
     = Some (JObj [(''id'', JStr ''telegram''),
                   (''fields'', JObj [(''token'', JStr ''T''), (''chatId'', JStr ''C'')])])
   \<and> convertNotificationAdapter (JObj []) = None
   \<and> filter_Boolean (map convertNotificationAdapter [JObj []]) = []"
  by (simp add: convertNotificationAdapter_def)

text \<open>
  Claim C9, at an input where the code does not do what the claim says. With both
  variables set, a placeholder that is an element of an array (here in a job's
  \<^verbatim>\<open>blacklist\<close>) is left as it is, by the replacement and in the job that the sync stores,
  while the placeholders in the fields of the global adapter are resolved; and a string
  that holds both placeholders keeps \<^verbatim>\<open>${BOT_TOKEN}\<close>.
\<close>

theorem placeholder_in_array_not_resolved:
  "replaceEnvPlaceholdersSimple \<lparr>BOT_TOKEN = Some ''T'', RAW_FEED_CHANNEL_ID = Some ''R''\<rparr>
     (JObj [(''jobs'', JArr [JObj [(''id'', JStr ''a''),
                                   (''blacklist'', JArr [JStr ''${BOT_TOKEN}''])]])])
     = JObj [(''jobs'', JArr [JObj [(''id'', JStr ''a''),
                                   (''blacklist'', JArr [JStr ''${BOT_TOKEN}''])]])]
   \<and> map blacklist (jobs (syncConfigJobsToDatabase
        \<lparr>BOT_TOKEN = Some ''T'', RAW_FEED_CHANNEL_ID = Some ''R''\<rparr> 0 0
        (Inr (JObj [(''adapters'', JArr [JObj [(''type'', JStr ''telegram''),
                                               (''botToken'', JStr ''${BOT_TOKEN}''),
                                               (''chatId'', JStr ''${RAW_FEED_CHANNEL_ID}'')]]),
                    (''jobs'', JArr [JObj [(''id'', JStr ''a''),
                                           (''blacklist'', JArr [JStr ''${BOT_TOKEN}''])]])]))
        \<lparr>jobs = [], users = [], syncInProgress = False, lastSyncTime = None, sync_log = []\<rparr>))
     = [JArr [JStr ''${BOT_TOKEN}'']]
   \<and> map notificationAdapter (jobs (syncConfigJobsToDatabase
        \<lparr>BOT_TOKEN = Some ''T'', RAW_FEED_CHANNEL_ID = Some ''R''\<rparr> 0 0
        (Inr (JObj [(''adapters'', JArr [JObj [(''type'', JStr ''telegram''),
                                               (''botToken'', JStr ''${BOT_TOKEN}''),
                                               (''chatId'', JStr ''${RAW_FEED_CHANNEL_ID}'')]]),
                    (''jobs'', JArr [JObj [(''id'', JStr ''a''),
                                           (''blacklist'', JArr [JStr ''${BOT_TOKEN}''])]])]))
        \<lparr>jobs = [], users = [], syncInProgress = False, lastSyncTime = None, sync_log = []\<rparr>))
     = [[JObj [(''id'', JStr ''telegram''),
               (''fields'', JObj [(''token'', JStr ''T''), (''chatId'', JStr ''R'')])]]]
   \<and> replaceEnvPlaceholdersSimple \<lparr>BOT_TOKEN = Some ''T'', RAW_FEED_CHANNEL_ID = Some ''R''\<rparr>
        (JObj [(''text'', JStr ''${BOT_TOKEN}:${RAW_FEED_CHANNEL_ID}'')])
     = JObj [(''text'', JStr ''${BOT_TOKEN}:R'')]"
  by (simp add: sync_eval_defs)

text \<open>
  Claim C10. An adapter that has a truthy \<^verbatim>\<open>id\<close>, no \<^verbatim>\<open>fields\<close>, no \<^verbatim>\<open>args\<close> and not the global
  shape is converted to \<^verbatim>\<open>{id, fields: {}}\<close>, not rejected. A job that lists such an adapter
  therefore has a non-empty list of adapters of its own: whatever global adapters the
  configuration has, they are not consulted, and the job is stored with exactly its own
  converted adapters.
\<close>

theorem id_only_adapter_is_valid:
  assumes "get_prop adapter ''id'' = Some i" and "truthy i"
    and "get_prop adapter ''fields'' = None" and "get_prop adapter ''args'' = None"
    and "\<not> (truthy_opt (get_prop adapter ''type'') \<and> truthy_opt (get_prop adapter ''botToken'')
             \<and> truthy_opt (get_prop adapter ''chatId''))"
    and "get_prop jobConfig ''id'' = Some (JStr jid)" and "jid \<noteq> []"
    and "get_prop jobConfig ''notificationAdapter'' = Some (JArr xs)" and "adapter \<in> set xs"
  shows "convertNotificationAdapter adapter = Some (JObj [(''id'', i), (''fields'', JObj [])])
    \<and> JObj [(''id'', i), (''fields'', JObj [])] \<in> set (filter_Boolean (map convertNotificationAdapter xs))
    \<and> job_adapters jobConfig currentConfig = Inr (filter_Boolean (map convertNotificationAdapter xs))
    \<and> syncJobToDatabase jobConfig currentConfig st =
        (Inr True,
         st\<lparr>jobs := put_job
            \<lparr>jobId = jid, name = or_else (get_prop jobConfig ''name'') (JStr jid),
             enabled = (get_prop jobConfig ''enabled'' \<noteq> Some (JBool False)),
             provider = or_else (get_prop jobConfig ''provider'') (JArr []),
             notificationAdapter = filter_Boolean (map convertNotificationAdapter xs),
             userId = CONFIG_SYNC_USER_ID,
             shareWithUsers = or_else (get_prop jobConfig ''user_ids'') (JArr []),
             blacklist = or_else (get_prop jobConfig ''blacklist'') (JArr [])\<rparr> (jobs st)\<rparr>)"
proof -
  let ?own = "filter_Boolean (map convertNotificationAdapter xs)"
  have c: "convertNotificationAdapter adapter = Some (JObj [(''id'', i), (''fields'', JObj [])])"
    using assms(1-5) by (rule convert_id_only)
  have "Some (JObj [(''id'', i), (''fields'', JObj [])]) \<in> set (map convertNotificationAdapter xs)"
    using c assms(9) by force
  then have m: "JObj [(''id'', i), (''fields'', JObj [])] \<in> set ?own"
    by (rule filter_Boolean_mem) simp
  then have ne: "?own \<noteq> []" by auto
  have a: "job_adapters jobConfig currentConfig = Inr ?own"
    using ne assms(8) by (simp add: job_adapters_def)
  have "jobConfig \<noteq> JNull" using assms(6) by auto
  then have s: "syncJobToDatabase jobConfig currentConfig st =
        (Inr True,
         st\<lparr>jobs := put_job
            \<lparr>jobId = jid, name = or_else (get_prop jobConfig ''name'') (JStr jid),
             enabled = (get_prop jobConfig ''enabled'' \<noteq> Some (JBool False)),
             provider = or_else (get_prop jobConfig ''provider'') (JArr []),
             notificationAdapter = ?own,
             userId = CONFIG_SYNC_USER_ID,
             shareWithUsers = or_else (get_prop jobConfig ''user_ids'') (JArr []),
             blacklist = or_else (get_prop jobConfig ''blacklist'') (JArr [])\<rparr> (jobs st)\<rparr>)"
    using assms(6,7) a ne
    by (simp add: syncJobToDatabase_def upsertJob_def job_data_def)
  from c m a s show ?thesis by simp
qed

text \<open>
  A job whose only adapter is \<^verbatim>\<open>{id: "slack"}\<close>, in a configuration with a global telegram
  adapter: the job is stored with the adapter \<^verbatim>\<open>{id: "slack", fields: {}}\<close> alone.
\<close>

theorem id_only_adapter_is_valid_witness:
  "convertNotificationAdapter (JObj [(''id'', JStr ''slack'')])
     = Some (JObj [(''id'', JStr ''slack''), (''fields'', JObj [])])
   \<and> map notificationAdapter (jobs (snd (syncJobToDatabase
        (JObj [(''id'', JStr ''a''), (''notificationAdapter'', JArr [JObj [(''id'', JStr ''slack'')]])])
        (JObj [(''adapters'', JArr [JObj [(''type'', JStr ''telegram''), (''botToken'', JStr ''T''),
                                          (''chatId'', JStr ''C'')]])])
        \<lparr>jobs = [], users = [], syncInProgress = True, lastSyncTime = None, sync_log = []\<rparr>)))
     = [[JObj [(''id'', JStr ''slack''), (''fields'', JObj [])]]]"
  using id_only_adapter_is_valid
    [of "JObj [(''id'', JStr ''slack'')]" "JStr ''slack''"
        "JObj [(''id'', JStr ''a''), (''notificationAdapter'', JArr [JObj [(''id'', JStr ''slack'')]])]"
        "''a''" "[JObj [(''id'', JStr ''slack'')]]"
        "JObj [(''adapters'', JArr [JObj [(''type'', JStr ''telegram''), (''botToken'', JStr ''T''),
                                          (''chatId'', JStr ''C'')]])]"
        "\<lparr>jobs = [], users = [], syncInProgress = True, lastSyncTime = None, sync_log = []\<rparr>"]
  by (simp add: put_job_def)

section \<open>Claims about the execution gate and the planner\<close>

text \<open>
  Claim C3. While a cycle is running (\<^verbatim>\<open>executionInFlight\<close> is set), a call of \<^verbatim>\<open>execute\<close>
  returns at once and changes nothing but the debug log, and so does every sequence of
  triggers. A call that finds the gate idle leaves it idle again whenever it ends before
  the \<^verbatim>\<open>await\<close>, also when planning throws; it leaves it running exactly when it suspends on
  a non-empty list of tasks. No task touches the flag, and when the awaited runner has
  settled, fulfilled or rejected, the flag is cleared.
\<close>

theorem execution_gate_single_flight:
  "(executionInFlight w \<longrightarrow>
      execute_start demoMode working now pm c js w
        = (Returned, traced DebugPreviousExecutionStillRunning w)
      \<and> trigger_all calls pm c w
        = w\<lparr>trace := trace w @ replicate (length calls) DebugPreviousExecutionStillRunning\<rparr>)
   \<and> (\<not> executionInFlight w \<longrightarrow>
        (case fst (execute_start demoMode working now pm c js w) of
           Awaiting tasks \<Rightarrow> executionInFlight (snd (execute_start demoMode working now pm c js w))
                              \<and> tasks \<noteq> []
         | Returned \<Rightarrow> \<not> executionInFlight (snd (execute_start demoMode working now pm c js w))
         | Threw e \<Rightarrow> \<not> executionInFlight (snd (execute_start demoMode working now pm c js w))))
   \<and> executionInFlight (run_task pipeline t w) = executionInFlight w
   \<and> \<not> executionInFlight (snd (execute_resume r w))"
proof -
  have "\<not> executionInFlight (snd (execute_resume r w))"
    by (cases r) (simp_all add: execute_resume_def)
  then show ?thesis
    using execute_start_running[of w demoMode working now pm c js]
      trigger_all_running[of w calls pm c]
      execute_start_idle[of w demoMode working now pm c js]
      run_task_flag[of pipeline t w]
    by blast
qed

text \<open>
  A cycle on one job with one binding suspends with the gate closed; two triggers that
  arrive meanwhile only add two debug lines; a cycle whose planning throws on a \<^verbatim>\<open>null\<close>
  binding ends with the gate open.
\<close>

theorem execution_gate_single_flight_witness:
  "fst (execute_start False True 7
          (providerMap [\<lparr>metaInformation_id = Some ''p1'', init = adopting_init\<rparr>]) 2
          [\<lparr>jobId = ''a'', name = JStr ''a'', enabled = True,
            provider = JArr [JObj [(''id'', JStr ''p1'')]], notificationAdapter = [],
            userId = ''config_sync'', shareWithUsers = JArr [], blacklist = JArr []\<rparr>]
          initial_world)
     = Awaiting [Task \<lparr>metaInformation_id = Some ''p1'', init = adopting_init\<rparr>
                   (JObj [(''id'', JStr ''p1'')])
                   \<lparr>jobId = ''a'', name = JStr ''a'', enabled = True,
                    provider = JArr [JObj [(''id'', JStr ''p1'')]], notificationAdapter = [],
                    userId = ''config_sync'', shareWithUsers = JArr [], blacklist = JArr []\<rparr>]
   \<and> executionInFlight (snd (execute_start False True 7
          (providerMap [\<lparr>metaInformation_id = Some ''p1'', init = adopting_init\<rparr>]) 2
          [\<lparr>jobId = ''a'', name = JStr ''a'', enabled = True,
            provider = JArr [JObj [(''id'', JStr ''p1'')]], notificationAdapter = [],
            userId = ''config_sync'', shareWithUsers = JArr [], blacklist = JArr []\<rparr>]
          initial_world))
   \<and> trigger_all [(False, True, 8, []), (True, True, 9, [])]
        (providerMap [\<lparr>metaInformation_id = Some ''p1'', init = adopting_init\<rparr>]) 2
        (initial_world\<lparr>executionInFlight := True\<rparr>)
     = initial_world\<lparr>executionInFlight := True,
          trace := [DebugPreviousExecutionStillRunning, DebugPreviousExecutionStillRunning]\<rparr>
   \<and> fst (execute_start False True 7
          (providerMap [\<lparr>metaInformation_id = Some ''p1'', init = adopting_init\<rparr>]) 2
          [\<lparr>jobId = ''a'', name = JStr ''a'', enabled = True,
            provider = JArr [JNull], notificationAdapter = [],
            userId = ''config_sync'', shareWithUsers = JArr [], blacklist = JArr []\<rparr>]
          initial_world)
     = Threw TypeError
   \<and> \<not> executionInFlight (snd (execute_start False True 7
          (providerMap [\<lparr>metaInformation_id = Some ''p1'', init = adopting_init\<rparr>]) 2
          [\<lparr>jobId = ''a'', name = JStr ''a'', enabled = True,
            provider = JArr [JNull], notificationAdapter = [],
            userId = ''config_sync'', shareWithUsers = JArr [], blacklist = JArr []\<rparr>]
          initial_world))"
  using execution_gate_single_flight
    [of "initial_world\<lparr>executionInFlight := True\<rparr>" False True 8
        "providerMap [\<lparr>metaInformation_id = Some ''p1'', init = adopting_init\<rparr>]" 2 "[]"
        "[(False, True, 8, []), (True, True, 9, [])]"]
    execution_gate_single_flight
    [of initial_world False True 7
        "providerMap [\<lparr>metaInformation_id = Some ''p1'', init = adopting_init\<rparr>]" 2
        "[\<lparr>jobId = ''a'', name = JStr ''a'', enabled = True,
            provider = JArr [JNull], notificationAdapter = [],
            userId = ''config_sync'', shareWithUsers = JArr [], blacklist = JArr []\<rparr>]"]
  by (simp add: initial_world_def execute_start_def execute_try_def getJobs_def providerMap_def
        traced_def schedulable_def)




text \<open>
  Claim C4, as amended. Planning calls neither \<^verbatim>\<open>init\<close> nor the pipeline and changes no
  module's \<^verbatim>\<open>config\<close>, whatever the cycle does up to its suspension. When planning completes
  (no binding of a schedulable job is \<^verbatim>\<open>null\<close>), every binding of a schedulable job that
  resolves has its task among the tasks the cycle suspends on, whatever its \<^verbatim>\<open>init\<close> would
  do. The task, when it is executed, first calls \<^verbatim>\<open>init\<close> with the binding and the job's
  blacklist. When \<^verbatim>\<open>init\<close> throws, the task catches the throw, logs an execution error for
  the binding and does not run the pipeline; when \<^verbatim>\<open>init\<close> returns, the pipeline is run next,
  with the module's new \<^verbatim>\<open>config\<close>.
\<close>

theorem init_is_called_by_the_task:
  "filter is_call (trace (snd (execute_start demoMode working now pm c js w)))
     = filter is_call (trace w)
   \<and> provider_config (snd (execute_start demoMode working now pm c js w)) = provider_config w
   \<and> (\<not> executionInFlight w \<and> (\<forall>job \<in> set js. schedulable job \<longrightarrow> JNull \<notin> set (bindings job))
        \<and> job \<in> set js \<and> schedulable job \<and> prov \<in> set (bindings job)
        \<and> map_get pm (get_prop prov ''id'') = Some m \<longrightarrow>
        fst (execute_start False True now pm c js w) = Awaiting (planned_tasks pm js)
        \<and> Task m prov job \<in> set (planned_tasks pm js))
   \<and> (init m (provider_config w (metaInformation_id m)) prov (blacklist job) = Inl e \<longrightarrow>
        run_task pipeline (Task m prov job) w
          = w\<lparr>trace := trace w @ [CalledInit (metaInformation_id m) prov (blacklist job),
                                   ErrorExecutingPipeline (get_prop prov ''id'') (jobId job)]\<rparr>)
   \<and> (init m (provider_config w (metaInformation_id m)) prov (blacklist job) = Inr cfg \<longrightarrow>
        run_task pipeline (Task m prov job) w
          = w\<lparr>provider_config := (provider_config w)(metaInformation_id m := cfg),
               trace := trace w
                 @ [CalledInit (metaInformation_id m) prov (blacklist job),
                    CalledPipeline cfg (notificationAdapter job) (get_prop prov ''id'') (jobId job)]
                 @ (case pipeline cfg (notificationAdapter job) (get_prop prov ''id'') (jobId job) of
                      Inl e' \<Rightarrow> [ErrorExecutingPipeline (get_prop prov ''id'') (jobId job)]
                    | Inr u \<Rightarrow> [])\<rparr>)"
proof -
  have a: "filter is_call (trace (snd (execute_start demoMode working now pm c js w)))
             = filter is_call (trace w)
           \<and> provider_config (snd (execute_start demoMode working now pm c js w)) = provider_config w"
    by (rule execute_start_quiet)
  have b: "fst (execute_start False True now pm c js w) = Awaiting (planned_tasks pm js)
        \<and> Task m prov job \<in> set (planned_tasks pm js)"
    if h: "\<not> executionInFlight w" "\<forall>job \<in> set js. schedulable job \<longrightarrow> JNull \<notin> set (bindings job)"
      "job \<in> set js" "schedulable job" "prov \<in> set (bindings job)"
      "map_get pm (get_prop prov ''id'') = Some m"
  proof -
    from h(3-6) have t: "Task m prov job \<in> set (planned_tasks pm js)"
      by (simp add: planned_tasks_mem)
    then have "planned_tasks pm js \<noteq> []" by auto
    with execute_start_planned[OF h(1,2), of now pm c] t show ?thesis by simp
  qed
  have c: "run_task pipeline (Task m prov job) w
          = w\<lparr>trace := trace w @ [CalledInit (metaInformation_id m) prov (blacklist job),
                                   ErrorExecutingPipeline (get_prop prov ''id'') (jobId job)]\<rparr>"
    if "init m (provider_config w (metaInformation_id m)) prov (blacklist job) = Inl e"
    using that by (simp add: traced_def)
  have d: "run_task pipeline (Task m prov job) w
          = w\<lparr>provider_config := (provider_config w)(metaInformation_id m := cfg),
               trace := trace w
                 @ [CalledInit (metaInformation_id m) prov (blacklist job),
                    CalledPipeline cfg (notificationAdapter job) (get_prop prov ''id'') (jobId job)]
                 @ (case pipeline cfg (notificationAdapter job) (get_prop prov ''id'') (jobId job) of
                      Inl e' \<Rightarrow> [ErrorExecutingPipeline (get_prop prov ''id'') (jobId job)]
                    | Inr u \<Rightarrow> [])\<rparr>"
    if "init m (provider_config w (metaInformation_id m)) prov (blacklist job) = Inr cfg"
    using that by (simp add: traced_def Let_def split: sum.splits)
  from a b c d show ?thesis by blast
qed

text \<open>
  A module whose \<^verbatim>\<open>init\<close> adopts the binding, and a job with that binding after one that
  names an unknown provider: the cycle suspends on the task of the second binding without
  having called \<^verbatim>\<open>init\<close>, and the task calls \<^verbatim>\<open>init\<close>, stores the new \<^verbatim>\<open>config\<close> and runs the
  pipeline with it.
\<close>

theorem init_is_called_by_the_task_witness:
  "trace (run_task quiet_pipeline
      (Task \<lparr>metaInformation_id = Some ''p1'', init = adopting_init\<rparr> (JObj [(''id'', JStr ''p1'')])
         \<lparr>jobId = ''a'', name = JStr ''a'', enabled = True,
         provider = JArr [JObj [(''id'', JStr ''gone'')], JObj [(''id'', JStr ''p1'')]],
         notificationAdapter = [],
         userId = ''admin'', shareWithUsers = JArr [], blacklist = JArr []\<rparr>)
      initial_world)
   = [CalledInit (Some ''p1'') (JObj [(''id'', JStr ''p1'')]) (JArr []),
      CalledPipeline (JObj [(''id'', JStr ''p1'')]) [] (Some (JStr ''p1'')) ''a'']
   \<and> fst (execute_start False True 7 (providerMap [\<lparr>metaInformation_id = Some ''p1'', init = adopting_init\<rparr>]) 2
         [\<lparr>jobId = ''a'', name = JStr ''a'', enabled = True,
         provider = JArr [JObj [(''id'', JStr ''gone'')], JObj [(''id'', JStr ''p1'')]],
         notificationAdapter = [],
         userId = ''admin'', shareWithUsers = JArr [], blacklist = JArr []\<rparr>]
         initial_world)
     = Awaiting [Task \<lparr>metaInformation_id = Some ''p1'', init = adopting_init\<rparr> (JObj [(''id'', JStr ''p1'')])
         \<lparr>jobId = ''a'', name = JStr ''a'', enabled = True,
         provider = JArr [JObj [(''id'', JStr ''gone'')], JObj [(''id'', JStr ''p1'')]],
         notificationAdapter = [],
         userId = ''admin'', shareWithUsers = JArr [], blacklist = JArr []\<rparr>]
   \<and> filter is_call (trace (snd (execute_start False True 7 (providerMap [\<lparr>metaInformation_id = Some ''p1'', init = adopting_init\<rparr>]) 2
         [\<lparr>jobId = ''a'', name = JStr ''a'', enabled = True,
         provider = JArr [JObj [(''id'', JStr ''gone'')], JObj [(''id'', JStr ''p1'')]],
         notificationAdapter = [],
         userId = ''admin'', shareWithUsers = JArr [], blacklist = JArr []\<rparr>]
         initial_world))) = []"
  using init_is_called_by_the_task
    [of False True 7 "providerMap [\<lparr>metaInformation_id = Some ''p1'', init = adopting_init\<rparr>]" 2
        "[\<lparr>jobId = ''a'', name = JStr ''a'', enabled = True,
         provider = JArr [JObj [(''id'', JStr ''gone'')], JObj [(''id'', JStr ''p1'')]],
         notificationAdapter = [],
         userId = ''admin'', shareWithUsers = JArr [], blacklist = JArr []\<rparr>]"
        initial_world
        "\<lparr>jobId = ''a'', name = JStr ''a'', enabled = True,
         provider = JArr [JObj [(''id'', JStr ''gone'')], JObj [(''id'', JStr ''p1'')]],
         notificationAdapter = [],
         userId = ''admin'', shareWithUsers = JArr [], blacklist = JArr []\<rparr>"
        "JObj [(''id'', JStr ''p1'')]"
        "\<lparr>metaInformation_id = Some ''p1'', init = adopting_init\<rparr>"
        TypeError quiet_pipeline "JObj [(''id'', JStr ''p1'')]"]
  by (simp add: providerMap_def adopting_init_def quiet_pipeline_def initial_world_def
        initial_config_def planned_tasks_def binding_tasks_def schedulable_def bindings_def)

text \<open>
  Claim C4 as it is written fails for a module whose \<^verbatim>\<open>init\<close> throws: planning has called
  nothing (its trace holds only the debug line of the queue) and has produced the task of
  the binding instead of skipping it, and the throw shows when the task is run, where it
  is logged as an error of executing the pipeline.
\<close>

theorem throwing_init_is_planned_and_fails_in_task:
  "execute_start False True 7
     (providerMap [\<lparr>metaInformation_id = Some ''p1'', init = throwing_init\<rparr>]) 2
     [\<lparr>jobId = ''a'', name = JStr ''a'', enabled = True,
       provider = JArr [JObj [(''id'', JStr ''p1'')]], notificationAdapter = [],
       userId = ''admin'', shareWithUsers = JArr [], blacklist = JArr []\<rparr>]
     initial_world
   = (Awaiting [Task \<lparr>metaInformation_id = Some ''p1'', init = throwing_init\<rparr>
                  (JObj [(''id'', JStr ''p1'')])
                  \<lparr>jobId = ''a'', name = JStr ''a'', enabled = True,
                   provider = JArr [JObj [(''id'', JStr ''p1'')]], notificationAdapter = [],
                   userId = ''admin'', shareWithUsers = JArr [], blacklist = JArr []\<rparr>],
      initial_world\<lparr>executionInFlight := True, lastRun := Some 7, trace := [DebugQueued 1 2]\<rparr>)
   \<and> trace (run_task quiet_pipeline
        (Task \<lparr>metaInformation_id = Some ''p1'', init = throwing_init\<rparr>
           (JObj [(''id'', JStr ''p1'')])
           \<lparr>jobId = ''a'', name = JStr ''a'', enabled = True,
            provider = JArr [JObj [(''id'', JStr ''p1'')]], notificationAdapter = [],
            userId = ''admin'', shareWithUsers = JArr [], blacklist = JArr []\<rparr>)
        (initial_world\<lparr>executionInFlight := True, lastRun := Some 7, trace := [DebugQueued 1 2]\<rparr>))
     = [DebugQueued 1 2,
        CalledInit (Some ''p1'') (JObj [(''id'', JStr ''p1'')]) (JArr []),
        ErrorExecutingPipeline (Some (JStr ''p1'')) ''a'']"
  by (simp add: execute_start_def execute_try_def getJobs_def providerMap_def traced_def
        initial_world_def throwing_init_def schedulable_def)

section \<open>Claims about the bounded runner\<close>

text \<open>
  Claim C2. For every number of tasks and every limit \<open>L \<ge> 1\<close>, in every state that a call
  of \<^verbatim>\<open>runWithConcurrency\<close> can reach, whatever the interleaving and however many tasks
  reject: at most \<open>L\<close> tasks are unsettled; the runner has not rejected; when it has returned,
  every task has been submitted and has settled. And the runner is never stuck: from every
  such state it returns once the tasks that are out settle.
\<close>

theorem runner_bounded_and_complete:
  assumes "1 \<le> L" and "runner_reachable n L r"
  shows "int (length (pending r)) \<le> L
    \<and> pc r \<noteq> RunnerRejected
    \<and> (pc r = RunnerReturned \<longrightarrow>
          pending r = [] \<and> todo r = [] \<and> (\<forall>i<n. i \<in> fst ` set (settled r)))
    \<and> (\<exists>r'. (runner_step (maxParallel L))\<^sup>*\<^sup>* r r' \<and> pc r' = RunnerReturned)"
proof -
  from assms(2) have inv: "runner_inv n (maxParallel L) r"
    by (rule runner_reachable_inv)
  then have "distinct (pending r)" "distinct (executing r)" "set (pending r) \<subseteq> set (executing r)"
      "length (executing r) \<le> maxParallel L"
    by (simp_all add: runner_inv_def)
  then have "card (set (pending r)) \<le> card (set (executing r))"
    by (simp add: card_mono)
  with \<open>distinct (pending r)\<close> \<open>distinct (executing r)\<close> \<open>length (executing r) \<le> maxParallel L\<close>
  have "length (pending r) \<le> maxParallel L"
    by (simp add: distinct_card)
  then have a: "int (length (pending r)) \<le> L"
    using maxParallel_id[OF assms(1)] by linarith
  have b: "pc r \<noteq> RunnerRejected"
    using inv by (auto simp: runner_inv_def)
  have c: "pending r = [] \<and> todo r = [] \<and> (\<forall>i<n. i \<in> fst ` set (settled r))"
    if "pc r = RunnerReturned"
  proof -
    from inv that have e: "todo r = []" "pending r = []"
      by (simp_all add: runner_inv_def)
    from inv have "set (todo r) \<union> set (pending r) \<union> fst ` set (settled r) = {0..<n}"
      by (simp add: runner_inv_def)
    with e have "fst ` set (settled r) = {0..<n}" by simp
    with e show ?thesis by simp
  qed
  have d: "\<exists>r'. (runner_step (maxParallel L))\<^sup>*\<^sup>* r r' \<and> pc r' = RunnerReturned"
    using inv by (rule runner_can_return)
  from a b c d show ?thesis by blast
qed

text \<open>
  Two tasks and the limit 1. After the first turn of the loop one task is unsettled and
  the runner waits for it; the first task rejects, the second is submitted only then,
  and the runner returns when both have settled.
\<close>

theorem runner_bounded_and_complete_witness:
  "runner_reachable 2 1
     \<lparr>todo = [1], executing = [0], pending = [0], settled = [], pc = AwaitingRace [0]\<rparr>
   \<and> length (pending \<lparr>todo = [1], executing = [0], pending = [0], settled = [],
                       pc = AwaitingRace [0]\<rparr>) = 1
   \<and> runner_reachable 2 1
     \<lparr>todo = [], executing = [], pending = [], settled = [(0, Rejected), (1, Fulfilled)],
      pc = RunnerReturned\<rparr>
   \<and> fst ` set (settled \<lparr>todo = [], executing = [], pending = [],
                          settled = [(0, Rejected), (1, Fulfilled)], pc = RunnerReturned\<rparr>)
       = {0, 1}"
  using runner_example_run
    runner_bounded_and_complete
      [of 1 2 "\<lparr>todo = [], executing = [], pending = [], settled = [(0, Rejected), (1, Fulfilled)],
               pc = RunnerReturned\<rparr>"]
  by auto

end
